theory Spec2Isabelle
  imports Main
begin

text \<open>
  A shallow embedding of the \<open>sqlite3db\<close> access layer: \<open>Connection::execute\<close>,
  \<open>Statement\<close>, \<open>Transaction\<close> and \<open>Savepoint\<close>, \<open>SchemaValidator\<close> and
  \<open>MigrationManager\<close>. Every function takes the connection state and returns the state
  after the call together with its result; a raised exception is the \<open>Inl\<close> of a sum.
  The embedded engine is a parameter of every function.
\<close>

section \<open>Result codes, values and exceptions\<close>

text \<open>
  The engine reports every call with a C \<open>int\<close>. No arithmetic is done on result codes,
  only comparisons and one mask with \<open>0xFF\<close>, so they are modelled as \<open>int\<close>; on the
  32-bit range the mask on \<open>int\<close> is the mask of the C code.
\<close>

type_synonym rc = int

text \<open>
  Modelled from the spec: the result codes of the embedded engine. Its header
  (\<open>sqlite3.h\<close>) is not part of the repository; \<open>connection.cpp\<close> states the value of
  the constraint code in a comment, the others are the engine's published constants.
\<close>

definition SQLITE_OK :: rc where "SQLITE_OK = 0"
definition SQLITE_CONSTRAINT :: rc where "SQLITE_CONSTRAINT = 19"
definition SQLITE_ROW :: rc where "SQLITE_ROW = 100"
definition SQLITE_DONE :: rc where "SQLITE_DONE = 101"

text \<open>
  \<open>Value\<close> of \<open>statement.hpp\<close>, without the floating-point and blob alternatives, which
  no function modelled here binds or reads.
\<close>

datatype Value = NullValue | Int64 int | Text string

text \<open>
  What a \<open>throw\<close> can carry. The exception classes of \<open>exceptions.hpp\<close>, each
  constructor with the arguments of the C++ constructor; \<open>std_exception\<close> for any other
  exception derived from \<open>std::exception\<close>, with its \<open>what()\<close> text; and
  \<open>thrown_value\<close> for a value of any type that is not derived from \<open>std::exception\<close>
  (a user procedure may \<open>throw 42\<close>), with a rendering of the value. A handler
  \<open>catch (const std::exception&)\<close> catches all but the last; \<open>catch (...)\<close> catches all.
\<close>

datatype exn =
    ConnectionException string rc
  | QueryException string string rc
  | SchemaException string
  | TransactionException string rc
  | ConstraintException string rc
  | MigrationException string int
  | std_exception string
  | thrown_value string

fun digits :: "nat \<Rightarrow> string" where
  "digits n = (if n < 10 then [char_of (48 + n)]
               else digits (n div 10) @ [char_of (48 + n mod 10)])"

declare digits.simps [simp del]

definition to_string :: "int \<Rightarrow> string" where
  "to_string i = (if i < 0 then CHR ''-'' # digits (nat (- i)) else digits (nat i))"

text \<open>\<open>DatabaseException\<close>'s constructor: the full message appends a non-zero code.\<close>

definition fullMessage :: "string \<Rightarrow> rc \<Rightarrow> string" where
  "fullMessage message errorCode =
     (if errorCode \<noteq> 0
      then message @ '' (SQLite error code: '' @ to_string errorCode @ '')''
      else message)"

text \<open>
  \<open>what()\<close> and \<open>errorCode()\<close>. A thrown value that is no exception has neither; no
  handler that calls them catches one, and the two functions give it the empty text
  and 0.
\<close>

fun what :: "exn \<Rightarrow> string" where
  "what (ConnectionException m code) = fullMessage (''Connection error: '' @ m) code"
| "what (QueryException m sql code) =
     fullMessage (''Query error: '' @ m) code @ [CHR 0x0A] @ ''SQL: '' @ sql"
| "what (SchemaException m) = fullMessage (''Schema error: '' @ m) 0"
| "what (TransactionException m code) = fullMessage (''Transaction error: '' @ m) code"
| "what (ConstraintException m code) = fullMessage (''Constraint violation: '' @ m) code"
| "what (MigrationException m version) =
     fullMessage (''Migration error at version '' @ to_string version @ '': '' @ m) 0"
| "what (std_exception m) = m"
| "what (thrown_value x) = []"

fun errorCode :: "exn \<Rightarrow> rc" where
  "errorCode (ConnectionException m code) = code"
| "errorCode (QueryException m sql code) = code"
| "errorCode (SchemaException m) = 0"
| "errorCode (TransactionException m code) = code"
| "errorCode (ConstraintException m code) = code"
| "errorCode (MigrationException m version) = 0"
| "errorCode (std_exception m) = 0"
| "errorCode (thrown_value x) = 0"

fun is_std_exception :: "exn \<Rightarrow> bool" where
  "is_std_exception (thrown_value x) = False"
| "is_std_exception e = True"

fun is_QueryException :: "exn \<Rightarrow> bool" where
  "is_QueryException (QueryException m sql code) = True"
| "is_QueryException e = False"

fun is_ConstraintException :: "exn \<Rightarrow> bool" where
  "is_ConstraintException (ConstraintException m code) = True"
| "is_ConstraintException e = False"

fun is_TransactionException :: "exn \<Rightarrow> bool" where
  "is_TransactionException (TransactionException m code) = True"
| "is_TransactionException e = False"

section \<open>The embedded engine\<close>

text \<open>
  The engine is an external collaborator. The access layer is modelled over any engine:
  a record of the calls the layer makes, over a type \<open>'db\<close> of connection states.
  \<^item> \<open>sqlite3_exec sql db\<close> gives the result code, the error text it allocated (if any)
    and the state after the call;
  \<^item> \<open>sqlite3_prepare_v2 sql db\<close> and \<open>sqlite3_bind sql index\<close> give the result code of
    compiling a text and of binding one of its parameters;
  \<^item> \<open>sqlite3_step sql bindings db\<close> runs a compiled and bound statement from its start:
    the rows it yields (finitely many), the code that ends it (\<open>SQLITE_DONE\<close> or an
    error) and the state after it;
  \<^item> \<open>sqlite3_column_int\<close> and \<open>sqlite3_column_text\<close> are the engine's conversions of a
    column value.
\<close>

record 'db engine =
  sqlite3_exec :: "string \<Rightarrow> 'db \<Rightarrow> (rc \<times> string option) \<times> 'db"
  sqlite3_errmsg :: "'db \<Rightarrow> string"
  sqlite3_prepare_v2 :: "string \<Rightarrow> 'db \<Rightarrow> rc"
  sqlite3_bind :: "string \<Rightarrow> int \<Rightarrow> rc"
  sqlite3_step :: "string \<Rightarrow> (int \<Rightarrow> Value) \<Rightarrow> 'db \<Rightarrow> (Value list list \<times> rc) \<times> 'db"
  sqlite3_column_int :: "Value \<Rightarrow> int"
  sqlite3_column_text :: "Value \<Rightarrow> string"

section \<open>Connection\<close>

text \<open>
  \<open>Connection::execute\<close> (connection.cpp). A raised exception is \<open>Inl\<close>; the state after
  the call is returned on both paths.
\<close>

definition Connection_execute :: "'db engine \<Rightarrow> string \<Rightarrow> 'db \<Rightarrow> (exn + unit) \<times> 'db" where
  "Connection_execute E sql db =
     (case sqlite3_exec E sql db of
        ((result, errMsg), db') \<Rightarrow>
          if result \<noteq> SQLITE_OK then
            (let error = (case errMsg of Some m \<Rightarrow> m | None \<Rightarrow> ''Unknown error'')
             in if and result 0xFF = SQLITE_CONSTRAINT
                then (Inl (ConstraintException error result), db')
                else (Inl (QueryException error sql result), db'))
          else (Inr (), db'))"

section \<open>Statement\<close>

text \<open>
  A \<open>Statement\<close> holds its SQL text (member \<open>sql_\<close>, here \<open>stmt_sql\<close>); the engine-side handle \<open>stmt_\<close> is represented by
  the values bound so far, the rows and final code still to be delivered once the
  statement has been started (\<open>None\<close> after compilation and after a reset), and the
  current row.
\<close>

record Statement =
  stmt_sql :: string
  bindings :: "int \<Rightarrow> Value"
  cursor :: "(Value list list \<times> rc) option"
  current_row :: "Value list"

definition Statement_ctor :: "'db engine \<Rightarrow> string \<Rightarrow> 'db \<Rightarrow> exn + Statement" where
  "Statement_ctor E sql db =
     (let result = sqlite3_prepare_v2 E sql db
      in if result \<noteq> SQLITE_OK then Inl (QueryException (sqlite3_errmsg E db) sql result)
         else Inr \<lparr>stmt_sql = sql, bindings = (\<lambda>i. NullValue), cursor = None, current_row = []\<rparr>)"

definition checkResult :: "'db engine \<Rightarrow> Statement \<Rightarrow> rc \<Rightarrow> string \<Rightarrow> 'db \<Rightarrow> exn + unit" where
  "checkResult E stmt result operation db =
     (if result \<noteq> SQLITE_OK
      then Inl (QueryException (operation @ '' failed: '' @ sqlite3_errmsg E db) (stmt_sql stmt) result)
      else Inr ())"

text \<open>
  The overloads of \<open>Statement::bind\<close> differ in the engine call and the operation name;
  an integer is bound through the \<open>int\<close> overload, as \<open>recordMigration\<close> binds the
  version.
\<close>

fun bind_operation :: "Value \<Rightarrow> string" where
  "bind_operation NullValue = ''bind null''"
| "bind_operation (Int64 i) = ''bind int''"
| "bind_operation (Text s) = ''bind text''"

definition Statement_bind :: "'db engine \<Rightarrow> int \<Rightarrow> Value \<Rightarrow> Statement \<Rightarrow> 'db \<Rightarrow> exn + Statement" where
  "Statement_bind E index v stmt db =
     (case checkResult E stmt (sqlite3_bind E (stmt_sql stmt) index) (bind_operation v) db of
        Inl e \<Rightarrow> Inl e
      | Inr u \<Rightarrow> Inr (stmt\<lparr>bindings := (bindings stmt)(index := v)\<rparr>))"

text \<open>
  One call of \<open>sqlite3_step\<close> on the handle: the first call after compilation or reset
  starts the statement; each call delivers the next row (\<open>SQLITE_ROW\<close>) or the final code.
  Once the final code has been delivered the next call starts the statement again.
  \<open>SQLITE_ROW\<close> announces a row, so it cannot be the code that ends a statement: an
  engine record that gives it as final code is read as ending with \<open>SQLITE_DONE\<close>.
\<close>

definition final_code :: "rc \<Rightarrow> rc" where
  "final_code final = (if final = SQLITE_ROW then SQLITE_DONE else final)"

definition step_handle :: "'db engine \<Rightarrow> Statement \<Rightarrow> 'db \<Rightarrow> (rc \<times> Statement) \<times> 'db" where
  "step_handle E stmt db =
     (case (case cursor stmt of None \<Rightarrow> sqlite3_step E (stmt_sql stmt) (bindings stmt) db
                               | Some p \<Rightarrow> (p, db)) of
        ((rows, final), db') \<Rightarrow>
          (case rows of
             [] \<Rightarrow> ((final_code final, stmt\<lparr>cursor := None, current_row := []\<rparr>), db')
           | r # rs \<Rightarrow> ((SQLITE_ROW, stmt\<lparr>cursor := Some (rs, final), current_row := r\<rparr>), db')))"

definition sqlite3_reset :: "Statement \<Rightarrow> Statement" where
  "sqlite3_reset stmt = stmt\<lparr>cursor := None, current_row := []\<rparr>"

definition Statement_execute ::
  "'db engine \<Rightarrow> Statement \<Rightarrow> 'db \<Rightarrow> (exn + unit) \<times> Statement \<times> 'db" where
  "Statement_execute E stmt db =
     (case step_handle E stmt db of
        ((result, stmt'), db') \<Rightarrow>
          if result \<noteq> SQLITE_DONE \<and> result \<noteq> SQLITE_ROW then
            (if result = SQLITE_CONSTRAINT
             then (Inl (ConstraintException (sqlite3_errmsg E db') result), stmt', db')
             else (Inl (QueryException (sqlite3_errmsg E db') (stmt_sql stmt') result), stmt', db'))
          else (Inr (), sqlite3_reset stmt', db'))"

definition Statement_step ::
  "'db engine \<Rightarrow> Statement \<Rightarrow> 'db \<Rightarrow> (exn + bool) \<times> Statement \<times> 'db" where
  "Statement_step E stmt db =
     (case step_handle E stmt db of
        ((result, stmt'), db') \<Rightarrow>
          if result = SQLITE_ROW then (Inr True, stmt', db')
          else if result = SQLITE_DONE then (Inr False, stmt', db')
          else (Inl (QueryException (sqlite3_errmsg E db') (stmt_sql stmt') result), stmt', db'))"

text \<open>
  Column readers; a column index outside the row reads as NULL. \<open>columnInt\<close> returns a
  C \<open>int\<close>: the low 32 bits of the engine's integer, read as a signed value.
\<close>

definition int32 :: "int \<Rightarrow> int" where
  "int32 n = signed_take_bit 31 n"

definition cell :: "Value list \<Rightarrow> nat \<Rightarrow> Value" where
  "cell row i = (if i < length row then row ! i else NullValue)"

definition column :: "Statement \<Rightarrow> nat \<Rightarrow> Value" where
  "column stmt i = cell (current_row stmt) i"

definition isNull :: "Statement \<Rightarrow> nat \<Rightarrow> bool" where
  "isNull stmt i = (column stmt i = NullValue)"

definition columnInt :: "'db engine \<Rightarrow> Statement \<Rightarrow> nat \<Rightarrow> int" where
  "columnInt E stmt i = int32 (sqlite3_column_int E (column stmt i))"

definition columnString :: "'db engine \<Rightarrow> Statement \<Rightarrow> nat \<Rightarrow> string" where
  "columnString E stmt i = sqlite3_column_text E (column stmt i)"

section \<open>Transaction and Savepoint\<close>

datatype TransactionType = Deferred | Immediate | Exclusive

text \<open>
  \<open>Transaction\<close> has the members \<open>conn_\<close> and \<open>active_\<close> (here \<open>txn_conn\<close> and
  \<open>txn_active\<close>); \<open>Savepoint\<close> has \<open>conn_\<close>, \<open>name_\<close> and \<open>active_\<close>. The connection
  is passed explicitly, so the \<open>conn_\<close> field only records whether the pointer is
  non-null (it is null after the object has been moved from).
\<close>

record Transaction =
  txn_conn :: bool
  txn_active :: bool

record Savepoint =
  sp_conn :: bool
  sp_name :: string
  sp_active :: bool

text \<open>
  \<open>catch (const QueryException& e) { throw TransactionException(prefix + e.what(),
  e.errorCode()); }\<close>: only a \<open>QueryException\<close> is caught; \<open>ConstraintException\<close> is not
  derived from it and passes through.
\<close>

definition rethrow_as_TransactionException :: "string \<Rightarrow> exn \<Rightarrow> exn" where
  "rethrow_as_TransactionException prefix e =
     (if is_QueryException e then TransactionException (prefix @ what e) (errorCode e) else e)"

fun begin_sql :: "TransactionType \<Rightarrow> string" where
  "begin_sql Deferred = ''BEGIN DEFERRED TRANSACTION''"
| "begin_sql Immediate = ''BEGIN IMMEDIATE TRANSACTION''"
| "begin_sql Exclusive = ''BEGIN EXCLUSIVE TRANSACTION''"

definition Transaction_ctor ::
  "'db engine \<Rightarrow> TransactionType \<Rightarrow> 'db \<Rightarrow> (exn + Transaction) \<times> 'db" where
  "Transaction_ctor E type db =
     (case Connection_execute E (begin_sql type) db of
        (Inl e, db') \<Rightarrow> (Inl (rethrow_as_TransactionException ''Failed to begin transaction: '' e), db')
      | (Inr u, db') \<Rightarrow> (Inr \<lparr>txn_conn = True, txn_active = True\<rparr>, db'))"

text \<open>The destructor: \<open>catch (...)\<close> swallows whatever the rollback raises.\<close>

definition Transaction_dtor :: "'db engine \<Rightarrow> Transaction \<Rightarrow> 'db \<Rightarrow> (exn + unit) \<times> 'db" where
  "Transaction_dtor E t db =
     (if txn_active t \<and> txn_conn t then
        (case Connection_execute E ''ROLLBACK'' db of
           (Inl e, db') \<Rightarrow> (Inr (), db')
         | (Inr u, db') \<Rightarrow> (Inr (), db'))
      else (Inr (), db))"

definition Transaction_move :: "Transaction \<Rightarrow> Transaction \<times> Transaction" where
  "Transaction_move other =
     (\<lparr>txn_conn = txn_conn other, txn_active = txn_active other\<rparr>,
      \<lparr>txn_conn = False, txn_active = False\<rparr>)"

definition Transaction_commit ::
  "'db engine \<Rightarrow> Transaction \<Rightarrow> 'db \<Rightarrow> (exn + unit) \<times> Transaction \<times> 'db" where
  "Transaction_commit E t db =
     (if \<not> txn_active t then (Inl (TransactionException ''Transaction already ended'' 0), t, db)
      else
        (case Connection_execute E ''COMMIT'' db of
           (Inr u, db') \<Rightarrow> (Inr (), t\<lparr>txn_active := False\<rparr>, db')
         | (Inl e, db') \<Rightarrow> (Inl (rethrow_as_TransactionException ''Failed to commit: '' e), t, db')))"

definition Transaction_rollback ::
  "'db engine \<Rightarrow> Transaction \<Rightarrow> 'db \<Rightarrow> (exn + unit) \<times> Transaction \<times> 'db" where
  "Transaction_rollback E t db =
     (if \<not> txn_active t then (Inl (TransactionException ''Transaction already ended'' 0), t, db)
      else
        (case Connection_execute E ''ROLLBACK'' db of
           (Inr u, db') \<Rightarrow> (Inr (), t\<lparr>txn_active := False\<rparr>, db')
         | (Inl e, db') \<Rightarrow> (Inl (rethrow_as_TransactionException ''Failed to rollback: '' e), t, db')))"

definition Savepoint_ctor :: "'db engine \<Rightarrow> string \<Rightarrow> 'db \<Rightarrow> (exn + Savepoint) \<times> 'db" where
  "Savepoint_ctor E name db =
     (case Connection_execute E (''SAVEPOINT '' @ name) db of
        (Inl e, db') \<Rightarrow> (Inl (rethrow_as_TransactionException ''Failed to create savepoint: '' e), db')
      | (Inr u, db') \<Rightarrow> (Inr \<lparr>sp_conn = True, sp_name = name, sp_active = True\<rparr>, db'))"

definition Transaction_savepoint ::
  "'db engine \<Rightarrow> Transaction \<Rightarrow> string \<Rightarrow> 'db \<Rightarrow> (exn + Savepoint) \<times> 'db" where
  "Transaction_savepoint E t name db =
     (if \<not> txn_active t
      then (Inl (TransactionException ''Cannot create savepoint: transaction not active'' 0), db)
      else Savepoint_ctor E name db)"

definition Savepoint_dtor :: "'db engine \<Rightarrow> Savepoint \<Rightarrow> 'db \<Rightarrow> (exn + unit) \<times> 'db" where
  "Savepoint_dtor E sp db =
     (if sp_active sp \<and> sp_conn sp then
        (case Connection_execute E (''RELEASE SAVEPOINT '' @ sp_name sp) db of
           (Inl e, db') \<Rightarrow> (Inr (), db')
         | (Inr u, db') \<Rightarrow> (Inr (), db'))
      else (Inr (), db))"

section \<open>SchemaValidator\<close>

text \<open>
  The requirement structs of \<open>migration.hpp\<close>. A \<open>TableRequirement\<close> has the one member
  \<open>name\<close> and is modelled by it. Field names carry the struct as a prefix.
\<close>

type_synonym TableRequirement = string

record ColumnRequirement =
  col_tableName :: string
  col_columnName :: string
  col_expectedType :: string
  col_requireNotNull :: bool

record IndexRequirement =
  idx_tableName :: string
  idx_indexName :: string

record ValidationError =
  err_type :: string
  err_message :: string

record SchemaValidator =
  tableRequirements :: "TableRequirement list"
  columnRequirements :: "ColumnRequirement list"
  indexRequirements :: "IndexRequirement list"

definition SchemaValidator_ctor :: SchemaValidator where
  "SchemaValidator_ctor =
     \<lparr>tableRequirements = [], columnRequirements = [], indexRequirements = []\<rparr>"

definition requireTable :: "string \<Rightarrow> SchemaValidator \<Rightarrow> SchemaValidator" where
  "requireTable tableName v = v\<lparr>tableRequirements := tableRequirements v @ [tableName]\<rparr>"

definition requireColumn :: "string \<Rightarrow> string \<Rightarrow> string \<Rightarrow> SchemaValidator \<Rightarrow> SchemaValidator" where
  "requireColumn tableName columnName expectedType v =
     v\<lparr>columnRequirements := columnRequirements v @
          [\<lparr>col_tableName = tableName, col_columnName = columnName,
            col_expectedType = expectedType, col_requireNotNull = False\<rparr>]\<rparr>"

text \<open>
  The loop of \<open>requireNotNull\<close>: the first requirement with this table and column gets
  the flag and the function returns (\<open>Some\<close>); \<open>None\<close> when the loop runs to its end.
\<close>

fun requireNotNull_loop ::
  "string \<Rightarrow> string \<Rightarrow> ColumnRequirement list \<Rightarrow> ColumnRequirement list option" where
  "requireNotNull_loop tableName columnName [] = None"
| "requireNotNull_loop tableName columnName (req # reqs) =
     (if col_tableName req = tableName \<and> col_columnName req = columnName
      then Some (req\<lparr>col_requireNotNull := True\<rparr> # reqs)
      else map_option ((#) req) (requireNotNull_loop tableName columnName reqs))"

definition requireNotNull :: "string \<Rightarrow> string \<Rightarrow> SchemaValidator \<Rightarrow> SchemaValidator" where
  "requireNotNull tableName columnName v =
     (case requireNotNull_loop tableName columnName (columnRequirements v) of
        Some reqs \<Rightarrow> v\<lparr>columnRequirements := reqs\<rparr>
      | None \<Rightarrow>
          v\<lparr>columnRequirements := columnRequirements v @
               [\<lparr>col_tableName = tableName, col_columnName = columnName,
                 col_expectedType = [], col_requireNotNull = True\<rparr>]\<rparr>)"

definition requireIndex :: "string \<Rightarrow> string \<Rightarrow> SchemaValidator \<Rightarrow> SchemaValidator" where
  "requireIndex tableName indexName v =
     v\<lparr>indexRequirements := indexRequirements v @
          [\<lparr>idx_tableName = tableName, idx_indexName = indexName\<rparr>]\<rparr>"

text \<open>
  \<open>std::toupper\<close> in the default "C" locale, and \<open>std::string::find\<close> (the position of
  the first occurrence, \<open>None\<close> for \<open>npos\<close>).
\<close>

definition toupper :: "char \<Rightarrow> char" where
  "toupper c = (let n = (of_char c :: nat)
                in if 97 \<le> n \<and> n \<le> 122 then char_of (n - 32) else c)"

fun string_find :: "string \<Rightarrow> string \<Rightarrow> nat option" where
  "string_find [] needle = (if needle = [] then Some 0 else None)"
| "string_find (c # cs) needle =
     (if take (length needle) (c # cs) = needle then Some 0
      else map_option Suc (string_find cs needle))"

definition quote :: string where
  "quote = [CHR 0x27]"

definition missing_table :: "TableRequirement \<Rightarrow> ValidationError" where
  "missing_table req =
     \<lparr>err_type = ''missing_table'',
      err_message = ''Required table '' @ quote @ req @ quote @ '' does not exist''\<rparr>"

definition wrong_type :: "ColumnRequirement \<Rightarrow> string \<Rightarrow> ValidationError" where
  "wrong_type req colType =
     \<lparr>err_type = ''wrong_type'',
      err_message = ''Column '' @ quote @ col_tableName req @ ''.'' @ col_columnName req @
        quote @ '' has type '' @ quote @ colType @ quote @ '', expected '' @ quote @
        col_expectedType req @ quote\<rparr>"

definition nullable :: "ColumnRequirement \<Rightarrow> ValidationError" where
  "nullable req =
     \<lparr>err_type = ''nullable'',
      err_message = ''Column '' @ quote @ col_tableName req @ ''.'' @ col_columnName req @
        quote @ '' should be NOT NULL''\<rparr>"

definition missing_column :: "ColumnRequirement \<Rightarrow> ValidationError" where
  "missing_column req =
     \<lparr>err_type = ''missing_column'',
      err_message = ''Required column '' @ quote @ col_tableName req @ ''.'' @
        col_columnName req @ quote @ '' does not exist''\<rparr>"

definition missing_index :: "IndexRequirement \<Rightarrow> ValidationError" where
  "missing_index req =
     \<lparr>err_type = ''missing_index'',
      err_message = ''Required index '' @ quote @ idx_indexName req @ quote @ '' on table '' @
        quote @ idx_tableName req @ quote @ '' does not exist''\<rparr>"

text \<open>The first loop of \<open>validate\<close>; \<open>errors\<close> is the vector being filled.\<close>

fun validate_tables ::
  "'db engine \<Rightarrow> TableRequirement list \<Rightarrow> ValidationError list \<Rightarrow> 'db \<Rightarrow>
   (exn + ValidationError list) \<times> 'db" where
  "validate_tables E [] errors db = (Inr errors, db)"
| "validate_tables E (req # reqs) errors db =
     (case Statement_ctor E ''SELECT 1 FROM sqlite_master WHERE type='table' AND name=?'' db of
        Inl e \<Rightarrow> (Inl e, db)
      | Inr stmt \<Rightarrow>
          (case Statement_bind E 1 (Text req) stmt db of
             Inl e \<Rightarrow> (Inl e, db)
           | Inr stmt1 \<Rightarrow>
               (case Statement_step E stmt1 db of
                  (Inl e, stmt2, db') \<Rightarrow> (Inl e, db')
                | (Inr row, stmt2, db') \<Rightarrow>
                    validate_tables E reqs
                      (if \<not> row then errors @ [missing_table req] else errors) db')))"

text \<open>
  What is done with the row that has the required column's name: the type check, then
  the NOT NULL check.
\<close>

definition check_found_column ::
  "'db engine \<Rightarrow> ColumnRequirement \<Rightarrow> Statement \<Rightarrow> ValidationError list \<Rightarrow> ValidationError list" where
  "check_found_column E req stmt errors =
     (let errors1 =
        (if col_expectedType req \<noteq> [] then
           (let colType = columnString E stmt 2;
                upperExpected = map toupper (col_expectedType req);
                upperActual = map toupper colType
            in if string_find upperActual upperExpected = None
               then errors @ [wrong_type req colType] else errors)
         else errors)
      in if col_requireNotNull req then
           (let notNull = columnInt E stmt 3
            in if notNull = 0 then errors1 @ [nullable req] else errors1)
         else errors1)"

text \<open>
  The \<open>while (stmt.step())\<close> loop over the rows of \<open>PRAGMA table_info\<close>. It returns
  \<open>found\<close> and the error vector. Each round that continues has consumed one of the
  finitely many rows the statement delivers.
\<close>

definition rows_left :: "'db engine \<Rightarrow> Statement \<Rightarrow> 'db \<Rightarrow> nat" where
  "rows_left E stmt db =
     (case cursor stmt of
        None \<Rightarrow> Suc (length (fst (fst (sqlite3_step E (stmt_sql stmt) (bindings stmt) db))))
      | Some p \<Rightarrow> length (fst p))"

function table_info_loop ::
  "'db engine \<Rightarrow> ColumnRequirement \<Rightarrow> Statement \<Rightarrow> ValidationError list \<Rightarrow> 'db \<Rightarrow>
   (exn + bool \<times> ValidationError list) \<times> 'db" where
  "table_info_loop E req stmt errors db =
     (case Statement_step E stmt db of
        (Inl e, stmt', db') \<Rightarrow> (Inl e, db')
      | (Inr row, stmt', db') \<Rightarrow>
          if row then
            (let colName = columnString E stmt' 1
             in if colName = col_columnName req
                then (Inr (True, check_found_column E req stmt' errors), db')
                else table_info_loop E req stmt' errors db')
          else (Inr (False, errors), db'))"
  by pat_completeness auto
termination
  by (relation "measure (\<lambda>(E, req, stmt, errors, db). rows_left E stmt db)")
     (auto simp: Statement_step_def step_handle_def rows_left_def final_code_def
        SQLITE_ROW_def SQLITE_DONE_def
        split: prod.splits option.splits list.splits if_splits)

declare table_info_loop.simps [simp del]

fun validate_columns ::
  "'db engine \<Rightarrow> ColumnRequirement list \<Rightarrow> ValidationError list \<Rightarrow> 'db \<Rightarrow>
   (exn + ValidationError list) \<times> 'db" where
  "validate_columns E [] errors db = (Inr errors, db)"
| "validate_columns E (req # reqs) errors db =
     (case Statement_ctor E (''PRAGMA table_info('' @ col_tableName req @ '')'') db of
        Inl e \<Rightarrow> (Inl e, db)
      | Inr stmt \<Rightarrow>
          (case table_info_loop E req stmt errors db of
             (Inl e, db') \<Rightarrow> (Inl e, db')
           | (Inr (found, errors'), db') \<Rightarrow>
               validate_columns E reqs
                 (if \<not> found then errors' @ [missing_column req] else errors') db'))"

fun validate_indexes ::
  "'db engine \<Rightarrow> IndexRequirement list \<Rightarrow> ValidationError list \<Rightarrow> 'db \<Rightarrow>
   (exn + ValidationError list) \<times> 'db" where
  "validate_indexes E [] errors db = (Inr errors, db)"
| "validate_indexes E (req # reqs) errors db =
     (case Statement_ctor E
             ''SELECT 1 FROM sqlite_master WHERE type='index' AND tbl_name=? AND name=?'' db of
        Inl e \<Rightarrow> (Inl e, db)
      | Inr stmt \<Rightarrow>
          (case Statement_bind E 1 (Text (idx_tableName req)) stmt db of
             Inl e \<Rightarrow> (Inl e, db)
           | Inr stmt1 \<Rightarrow>
               (case Statement_bind E 2 (Text (idx_indexName req)) stmt1 db of
                  Inl e \<Rightarrow> (Inl e, db)
                | Inr stmt2 \<Rightarrow>
                    (case Statement_step E stmt2 db of
                       (Inl e, stmt3, db') \<Rightarrow> (Inl e, db')
                     | (Inr row, stmt3, db') \<Rightarrow>
                         validate_indexes E reqs
                           (if \<not> row then errors @ [missing_index req] else errors) db'))))"

definition validate ::
  "'db engine \<Rightarrow> SchemaValidator \<Rightarrow> 'db \<Rightarrow> (exn + ValidationError list) \<times> 'db" where
  "validate E v db =
     (case validate_tables E (tableRequirements v) [] db of
        (Inl e, db1) \<Rightarrow> (Inl e, db1)
      | (Inr errors1, db1) \<Rightarrow>
          (case validate_columns E (columnRequirements v) errors1 db1 of
             (Inl e, db2) \<Rightarrow> (Inl e, db2)
           | (Inr errors2, db2) \<Rightarrow> validate_indexes E (indexRequirements v) errors2 db2))"

section \<open>MigrationManager\<close>

text \<open>
  A user procedure is a \<open>std::function<void(Connection&)>\<close>: it may change the
  connection state and may raise. \<open>None\<close> is the empty \<open>std::function\<close>; calling it
  raises \<open>std::bad_function_call\<close>.
\<close>

type_synonym 'db procedure = "('db \<Rightarrow> (exn + unit) \<times> 'db) option"

definition call :: "'db procedure \<Rightarrow> 'db \<Rightarrow> (exn + unit) \<times> 'db" where
  "call f db = (case f of None \<Rightarrow> (Inl (std_exception ''bad_function_call''), db)
                        | Some p \<Rightarrow> p db)"

text \<open>
  \<open>Migration\<close>. Its \<open>version\<close> is a C \<open>int\<close>; no arithmetic is done on versions, so they
  are HOL integers, and where the 32-bit range matters it is a hypothesis on the set.
\<close>

record 'db Migration =
  version :: int
  description :: string
  up :: "'db procedure"
  down :: "'db procedure"

text \<open>
  \<open>migrations_\<close> is a \<open>std::map<int, Migration>\<close>: an association list that \<open>emplace\<close>
  keeps in ascending key order, which is the order a range-for visits it in.
\<close>

type_synonym 'db MigrationManager = "(int \<times> 'db Migration) list"

definition count :: "'db MigrationManager \<Rightarrow> int \<Rightarrow> nat" where
  "count migrations v = length (filter (\<lambda>kv. fst kv = v) migrations)"

definition emplace :: "int \<Rightarrow> 'db Migration \<Rightarrow> 'db MigrationManager \<Rightarrow> 'db MigrationManager" where
  "emplace v m migrations = insort_key fst (v, m) migrations"

definition at :: "'db MigrationManager \<Rightarrow> int \<Rightarrow> exn + 'db Migration" where
  "at migrations v = (case map_of migrations v of
                        None \<Rightarrow> Inl (std_exception ''map::at'')
                      | Some m \<Rightarrow> Inr m)"

definition add :: "'db Migration \<Rightarrow> 'db MigrationManager \<Rightarrow> exn + 'db MigrationManager" where
  "add migration migrations =
     (if version migration \<le> 0
      then Inl (MigrationException ''Migration version must be positive'' (version migration))
      else if count migrations (version migration) > 0
      then Inl (MigrationException ''Duplicate migration version'' (version migration))
      else Inr (emplace (version migration) migration migrations))"

definition create_migrations_table :: string where
  "create_migrations_table =
     [CHR 0x0A] @ ''        CREATE TABLE IF NOT EXISTS __migrations ('' @
     [CHR 0x0A] @ ''            version INTEGER PRIMARY KEY,'' @
     [CHR 0x0A] @ ''            description TEXT NOT NULL,'' @
     [CHR 0x0A] @ ''            applied_at INTEGER NOT NULL DEFAULT (strftime('%s', 'now'))'' @
     [CHR 0x0A] @ ''        )'' @
     [CHR 0x0A] @ ''    ''"

definition ensureMigrationTable :: "'db engine \<Rightarrow> 'db \<Rightarrow> (exn + unit) \<times> 'db" where
  "ensureMigrationTable E db = Connection_execute E create_migrations_table db"

definition currentVersion :: "'db engine \<Rightarrow> 'db \<Rightarrow> (exn + int) \<times> 'db" where
  "currentVersion E db =
     (case ensureMigrationTable E db of
        (Inl e, db1) \<Rightarrow> (Inl e, db1)
      | (Inr u, db1) \<Rightarrow>
          (case Statement_ctor E ''SELECT MAX(version) FROM __migrations'' db1 of
             Inl e \<Rightarrow> (Inl e, db1)
           | Inr stmt \<Rightarrow>
               (case Statement_step E stmt db1 of
                  (Inl e, stmt', db2) \<Rightarrow> (Inl e, db2)
                | (Inr row, stmt', db2) \<Rightarrow>
                    if row then
                      (if isNull stmt' 0 then (Inr 0, db2)
                       else (Inr (columnInt E stmt' 0), db2))
                    else (Inr 0, db2))))"

definition latestVersion :: "'db MigrationManager \<Rightarrow> int" where
  "latestVersion migrations = (if migrations = [] then 0 else fst (last migrations))"

definition pending ::
  "'db engine \<Rightarrow> 'db MigrationManager \<Rightarrow> 'db \<Rightarrow> (exn + 'db Migration list) \<times> 'db" where
  "pending E migrations db =
     (case currentVersion E db of
        (Inl e, db') \<Rightarrow> (Inl e, db')
      | (Inr current, db') \<Rightarrow>
          (Inr (map snd (filter (\<lambda>kv. fst kv > current) migrations)), db'))"

definition isUpToDate :: "'db engine \<Rightarrow> 'db MigrationManager \<Rightarrow> 'db \<Rightarrow> (exn + bool) \<times> 'db" where
  "isUpToDate E migrations db =
     (case currentVersion E db of
        (Inl e, db') \<Rightarrow> (Inl e, db')
      | (Inr current, db') \<Rightarrow> (Inr (current \<ge> latestVersion migrations), db'))"

definition recordMigration ::
  "'db engine \<Rightarrow> 'db MigrationManager \<Rightarrow> int \<Rightarrow> 'db \<Rightarrow> (exn + unit) \<times> 'db" where
  "recordMigration E migrations v db =
     (case at migrations v of
        Inl e \<Rightarrow> (Inl e, db)
      | Inr migration \<Rightarrow>
          (case Statement_ctor E
                  ''INSERT INTO __migrations (version, description) VALUES (?, ?)'' db of
             Inl e \<Rightarrow> (Inl e, db)
           | Inr stmt \<Rightarrow>
               (case Statement_bind E 1 (Int64 v) stmt db of
                  Inl e \<Rightarrow> (Inl e, db)
                | Inr stmt1 \<Rightarrow>
                    (case Statement_bind E 2 (Text (description migration)) stmt1 db of
                       Inl e \<Rightarrow> (Inl e, db)
                     | Inr stmt2 \<Rightarrow>
                         (case Statement_execute E stmt2 db of
                            (r, stmt3, db') \<Rightarrow> (r, db'))))))"


text \<open>
  The \<open>try\<close> block of one round of \<open>applyTo\<close>: the up procedure, the bookkeeping record,
  the commit. It returns the transaction object as the block leaves it.
\<close>

definition applyTo_try ::
  "'db engine \<Rightarrow> 'db MigrationManager \<Rightarrow> 'db Migration \<Rightarrow> int \<Rightarrow> Transaction \<Rightarrow> 'db \<Rightarrow>
   (exn + unit) \<times> Transaction \<times> 'db" where
  "applyTo_try E migrations migration v txn db =
     (case call (up migration) db of
        (Inl e, db1) \<Rightarrow> (Inl e, txn, db1)
      | (Inr u, db1) \<Rightarrow>
          (case recordMigration E migrations v db1 of
             (Inl e, db2) \<Rightarrow> (Inl e, txn, db2)
           | (Inr u, db2) \<Rightarrow> Transaction_commit E txn db2))"

text \<open>
  The loop over \<open>toApply\<close>. \<open>catch (const std::exception& e)\<close> wraps what the
  \<open>try\<close> block raised when it is derived from \<open>std::exception\<close>; any other thrown
  value passes the handler unchanged. The transaction object is destroyed when the
  round is left, on every path. A failing \<open>BEGIN\<close> is raised outside the \<open>try\<close> block.
\<close>

fun applyTo_loop ::
  "'db engine \<Rightarrow> 'db MigrationManager \<Rightarrow> int list \<Rightarrow> 'db \<Rightarrow> (exn + unit) \<times> 'db" where
  "applyTo_loop E migrations [] db = (Inr (), db)"
| "applyTo_loop E migrations (v # rest) db =
     (case at migrations v of
        Inl e \<Rightarrow> (Inl e, db)
      | Inr migration \<Rightarrow>
          (case Transaction_ctor E Deferred db of
             (Inl e, db1) \<Rightarrow> (Inl e, db1)
           | (Inr txn, db1) \<Rightarrow>
               (case applyTo_try E migrations migration v txn db1 of
                  (Inl e, txn', db2) \<Rightarrow>
                    (Inl (if is_std_exception e
                          then MigrationException (''Migration failed: '' @ what e) v
                          else e),
                     snd (Transaction_dtor E txn' db2))
                | (Inr u, txn', db2) \<Rightarrow>
                    applyTo_loop E migrations rest (snd (Transaction_dtor E txn' db2)))))"

definition toApply :: "'db MigrationManager \<Rightarrow> int \<Rightarrow> int \<Rightarrow> int list" where
  "toApply migrations current targetVersion =
     sort (filter (\<lambda>v. v > current \<and> v \<le> targetVersion) (map fst migrations))"

definition applyTo ::
  "'db engine \<Rightarrow> 'db MigrationManager \<Rightarrow> int \<Rightarrow> 'db \<Rightarrow> (exn + unit) \<times> 'db" where
  "applyTo E migrations targetVersion db =
     (case ensureMigrationTable E db of
        (Inl e, db1) \<Rightarrow> (Inl e, db1)
      | (Inr u, db1) \<Rightarrow>
          (case currentVersion E db1 of
             (Inl e, db2) \<Rightarrow> (Inl e, db2)
           | (Inr current, db2) \<Rightarrow>
               applyTo_loop E migrations (toApply migrations current targetVersion) db2))"

text \<open>\<open>MigrationManager::apply\<close>; the bare name belongs to the proof language.\<close>

definition MigrationManager_apply :: "'db engine \<Rightarrow> 'db MigrationManager \<Rightarrow> 'db \<Rightarrow> (exn + unit) \<times> 'db" where
  "MigrationManager_apply E migrations db = applyTo E migrations (latestVersion migrations) db"





section \<open>Two engines\<close>

subsection \<open>An engine that records what it is sent\<close>

text \<open>
  Its state is the list of SQL texts it has received, in order; \<open>answer\<close> fixes the
  result code it gives to each text (for a statement: the code that ends it) and
  \<open>rows_of\<close> the rows a statement yields.
\<close>

definition recording_engine ::
  "(string \<Rightarrow> rc) \<Rightarrow> (string \<Rightarrow> Value list list) \<Rightarrow> string list engine" where
  "recording_engine answer rows_of =
     \<lparr>sqlite3_exec = (\<lambda>sql log. ((answer sql, None), log @ [sql])),
      sqlite3_errmsg = (\<lambda>log. ''engine error''),
      sqlite3_prepare_v2 = (\<lambda>sql log. SQLITE_OK),
      sqlite3_bind = (\<lambda>sql index. SQLITE_OK),
      sqlite3_step = (\<lambda>sql b log. ((rows_of sql, answer sql), log @ [sql])),
      sqlite3_column_int = (\<lambda>v. 0),
      sqlite3_column_text = (\<lambda>v. [])\<rparr>"

subsection \<open>A transactional engine with a bookkeeping table\<close>

text \<open>
  Modelled from the spec: the embedded engine behind the calls of the migration manager
  (the engine is not part of the repository). The spec gives its interface (exec,
  prepare, step with row/done/error, bind) and the layout of the one persisted table,
  \<open>(version INTEGER PRIMARY KEY, description TEXT NOT NULL, applied_at)\<close>; what
  \<open>BEGIN\<close>, \<open>COMMIT\<close> and \<open>ROLLBACK\<close> do is the engine's documented behaviour.

  A connection sees an image of the database: the rows of \<open>__migrations\<close> in insertion
  order (\<open>None\<close> while the table does not exist) and everything else, of any type \<open>'u\<close>.
  While a transaction is open, \<open>journal\<close> holds the image to restore on \<open>ROLLBACK\<close>.
  A fault plan lets any call fail: a call whose planned code is an error code fails with
  that code and changes nothing (for \<open>sqlite3_exec\<close> every code but \<open>SQLITE_OK\<close> is an
  error; for a step \<open>SQLITE_ROW\<close> and \<open>SQLITE_DONE\<close> are not errors either).
\<close>

record 'u image =
  migrations_table :: "(int \<times> string) list option"
  user_data :: 'u

record 'u connection_state =
  live :: "'u image"
  journal :: "'u image option"

record fault_plan =
  exec_fault :: "string \<Rightarrow> rc"
  step_fault :: "string \<Rightarrow> (int \<Rightarrow> Value) \<Rightarrow> rc"

definition planned_error :: "rc \<Rightarrow> bool" where
  "planned_error code = (code \<noteq> SQLITE_OK \<and> code \<noteq> SQLITE_ROW \<and> code \<noteq> SQLITE_DONE)"

definition no_faults :: fault_plan where
  "no_faults = \<lparr>exec_fault = (\<lambda>sql. 0), step_fault = (\<lambda>sql b. 0)\<rparr>"

definition SQLITE_ERROR :: rc where "SQLITE_ERROR = 1"
definition SQLITE_MISMATCH :: rc where "SQLITE_MISMATCH = 20"
definition SQLITE_RANGE :: rc where "SQLITE_RANGE = 25"
definition SQLITE_CONSTRAINT_PRIMARYKEY :: rc where "SQLITE_CONSTRAINT_PRIMARYKEY = 1555"

definition select_max_sql :: string where
  "select_max_sql = ''SELECT MAX(version) FROM __migrations''"

definition insert_sql :: string where
  "insert_sql = ''INSERT INTO __migrations (version, description) VALUES (?, ?)''"

definition delete_sql :: string where
  "delete_sql = ''DELETE FROM __migrations WHERE version = ?''"

definition model_exec ::
  "fault_plan \<Rightarrow> string \<Rightarrow> 'u connection_state \<Rightarrow> (rc \<times> string option) \<times> 'u connection_state" where
  "model_exec F sql db =
     (if exec_fault F sql \<noteq> 0 then ((exec_fault F sql, Some ''injected fault''), db)
      else if sql = begin_sql Deferred \<or> sql = begin_sql Immediate \<or> sql = begin_sql Exclusive then
        (case journal db of
           None \<Rightarrow> ((SQLITE_OK, None), db\<lparr>journal := Some (live db)\<rparr>)
         | Some j \<Rightarrow>
             ((SQLITE_ERROR, Some ''cannot start a transaction within a transaction''), db))
      else if sql = ''COMMIT'' then
        (case journal db of
           None \<Rightarrow> ((SQLITE_ERROR, Some ''cannot commit - no transaction is active''), db)
         | Some j \<Rightarrow> ((SQLITE_OK, None), db\<lparr>journal := None\<rparr>))
      else if sql = ''ROLLBACK'' then
        (case journal db of
           None \<Rightarrow> ((SQLITE_ERROR, Some ''cannot rollback - no transaction is active''), db)
         | Some j \<Rightarrow> ((SQLITE_OK, None), \<lparr>live = j, journal = None\<rparr>))
      else if sql = create_migrations_table then
        ((SQLITE_OK, None),
         (case migrations_table (live db) of
            None \<Rightarrow> db\<lparr>live := (live db)\<lparr>migrations_table := Some []\<rparr>\<rparr>
          | Some rows \<Rightarrow> db))
      else ((SQLITE_ERROR, Some ''statement not modelled''), db))"

definition model_prepare :: "string \<Rightarrow> 'u connection_state \<Rightarrow> rc" where
  "model_prepare sql db =
     (if sql = select_max_sql \<or> sql = insert_sql \<or> sql = delete_sql
      then (if migrations_table (live db) = None then SQLITE_ERROR else SQLITE_OK)
      else SQLITE_ERROR)"

definition model_bind :: "string \<Rightarrow> int \<Rightarrow> rc" where
  "model_bind sql index =
     (if sql = insert_sql \<and> (index = 1 \<or> index = 2) then SQLITE_OK
      else if sql = delete_sql \<and> index = 1 then SQLITE_OK
      else SQLITE_RANGE)"

definition model_step ::
  "fault_plan \<Rightarrow> string \<Rightarrow> (int \<Rightarrow> Value) \<Rightarrow> 'u connection_state \<Rightarrow>
   (Value list list \<times> rc) \<times> 'u connection_state" where
  "model_step F sql b db =
     (if planned_error (step_fault F sql b) then (([], step_fault F sql b), db)
      else
        (case migrations_table (live db) of
           None \<Rightarrow> (([], SQLITE_ERROR), db)
         | Some rows \<Rightarrow>
             if sql = select_max_sql then
               (([[if rows = [] then NullValue else Int64 (Max (set (map fst rows)))]],
                 SQLITE_DONE), db)
             else if sql = insert_sql then
               (case (b 1, b 2) of
                  (Int64 v, Text d) \<Rightarrow>
                    if v \<in> set (map fst rows) then (([], SQLITE_CONSTRAINT_PRIMARYKEY), db)
                    else (([], SQLITE_DONE),
                          db\<lparr>live := (live db)\<lparr>migrations_table := Some (rows @ [(v, d)])\<rparr>\<rparr>)
                | other \<Rightarrow> (([], SQLITE_MISMATCH), db))
             else if sql = delete_sql then
               (case b 1 of
                  Int64 v \<Rightarrow>
                    (([], SQLITE_DONE),
                     db\<lparr>live := (live db)\<lparr>migrations_table :=
                           Some (filter (\<lambda>r. fst r \<noteq> v) rows)\<rparr>\<rparr>)
                | other \<Rightarrow> (([], SQLITE_DONE), db))
             else (([], SQLITE_ERROR), db)))"

fun model_column_int :: "Value \<Rightarrow> int" where
  "model_column_int (Int64 n) = int32 n"
| "model_column_int v = 0"

fun model_column_text :: "Value \<Rightarrow> string" where
  "model_column_text (Text s) = s"
| "model_column_text (Int64 n) = to_string n"
| "model_column_text NullValue = []"

definition model_engine :: "fault_plan \<Rightarrow> 'u connection_state engine" where
  "model_engine F =
     \<lparr>sqlite3_exec = model_exec F,
      sqlite3_errmsg = (\<lambda>db. ''engine error''),
      sqlite3_prepare_v2 = model_prepare,
      sqlite3_bind = model_bind,
      sqlite3_step = model_step F,
      sqlite3_column_int = model_column_int,
      sqlite3_column_text = model_column_text\<rparr>"

text \<open>What a connection observes of the bookkeeping table, and whether a transaction is open.\<close>

definition records :: "'u connection_state \<Rightarrow> (int \<times> string) list" where
  "records db = (case migrations_table (live db) of None \<Rightarrow> [] | Some rows \<Rightarrow> rows)"

definition in_transaction :: "'u connection_state \<Rightarrow> bool" where
  "in_transaction db = (journal db \<noteq> None)"

text \<open>
  A user procedure that leaves the bookkeeping table and the transaction to the manager:
  whatever the state and whether it raises or not, it changes user data only.
\<close>

definition user_data_only :: "('u connection_state \<Rightarrow> (exn + unit) \<times> 'u connection_state) \<Rightarrow> bool" where
  "user_data_only p =
     (\<forall>db. migrations_table (live (snd (p db))) = migrations_table (live db)
         \<and> journal (snd (p db)) = journal db)"

section \<open>Notions used to state the properties\<close>

text \<open>The column requirements a validator holds for one (table, column) pair.\<close>

definition entries_for :: "string \<Rightarrow> string \<Rightarrow> SchemaValidator \<Rightarrow> ColumnRequirement list" where
  "entries_for tableName columnName v =
     filter (\<lambda>req. col_tableName req = tableName \<and> col_columnName req = columnName)
       (columnRequirements v)"

text \<open>
  The queries of \<open>validate\<close> only read the catalog: a read-only engine is one whose
  statements leave the connection state as it is.
\<close>

definition read_only :: "'db engine \<Rightarrow> bool" where
  "read_only E = (\<forall>sql b db. snd (sqlite3_step E sql b db) = db)"

text \<open>The error list of a finished validation.\<close>

definition errors_of :: "(exn + ValidationError list) \<times> 'db \<Rightarrow> ValidationError list" where
  "errors_of r = (case fst r of Inl e \<Rightarrow> [] | Inr errors \<Rightarrow> errors)"

text \<open>
  What the spec says each requirement is checked against, in terms of the answers of
  the engine's catalog. \<open>query_answer\<close> is the rows a query yields and the code that ends it.
  A table requirement: the table is in the catalog, absence gives \<open>missing_table\<close>. A
  column requirement: the column is looked up in the table's column catalog (the first
  row of \<open>PRAGMA table_info\<close> with its name); absence gives \<open>missing_column\<close>; if an
  expected type is given and, case ignored, it is not a substring of the declared type,
  \<open>wrong_type\<close>; if not-null is required and the catalog does not mark the column not
  null, \<open>nullable\<close>. An index requirement: an index of that name on that table is in
  the catalog, absence gives \<open>missing_index\<close>. A requirement is answered when the engine
  compiles and binds its query and the query runs to the row looked for or to its end.
\<close>

definition table_query :: string where
  "table_query = ''SELECT 1 FROM sqlite_master WHERE type='table' AND name=?''"

definition index_query :: string where
  "index_query = ''SELECT 1 FROM sqlite_master WHERE type='index' AND tbl_name=? AND name=?''"

definition table_info_query :: "string \<Rightarrow> string" where
  "table_info_query tableName = ''PRAGMA table_info('' @ tableName @ '')''"

definition query_answer :: "'db engine \<Rightarrow> string \<Rightarrow> (int \<Rightarrow> Value) \<Rightarrow> 'db \<Rightarrow> Value list list \<times> rc" where
  "query_answer E sql b db = fst (sqlite3_step E sql b db)"

definition contains :: "string \<Rightarrow> string \<Rightarrow> bool" where
  "contains whole part = (\<exists>before after. whole = before @ part @ after)"

definition table_answer :: "'db engine \<Rightarrow> 'db \<Rightarrow> TableRequirement \<Rightarrow> Value list list \<times> rc" where
  "table_answer E db req = query_answer E table_query ((\<lambda>i. NullValue)(1 := Text req)) db"

definition table_answered :: "'db engine \<Rightarrow> 'db \<Rightarrow> TableRequirement \<Rightarrow> bool" where
  "table_answered E db req =
     (sqlite3_prepare_v2 E table_query db = SQLITE_OK \<and> sqlite3_bind E table_query 1 = SQLITE_OK
      \<and> (fst (table_answer E db req) \<noteq> [] \<or> final_code (snd (table_answer E db req)) = SQLITE_DONE))"

definition table_errors :: "'db engine \<Rightarrow> 'db \<Rightarrow> TableRequirement \<Rightarrow> ValidationError list" where
  "table_errors E db req = (if fst (table_answer E db req) = [] then [missing_table req] else [])"

definition index_answer :: "'db engine \<Rightarrow> 'db \<Rightarrow> IndexRequirement \<Rightarrow> Value list list \<times> rc" where
  "index_answer E db req =
     query_answer E index_query
       ((\<lambda>i. NullValue)(1 := Text (idx_tableName req), 2 := Text (idx_indexName req))) db"

definition index_answered :: "'db engine \<Rightarrow> 'db \<Rightarrow> IndexRequirement \<Rightarrow> bool" where
  "index_answered E db req =
     (sqlite3_prepare_v2 E index_query db = SQLITE_OK \<and> sqlite3_bind E index_query 1 = SQLITE_OK
      \<and> sqlite3_bind E index_query 2 = SQLITE_OK
      \<and> (fst (index_answer E db req) \<noteq> [] \<or> final_code (snd (index_answer E db req)) = SQLITE_DONE))"

definition index_errors :: "'db engine \<Rightarrow> 'db \<Rightarrow> IndexRequirement \<Rightarrow> ValidationError list" where
  "index_errors E db req = (if fst (index_answer E db req) = [] then [missing_index req] else [])"

definition column_answer :: "'db engine \<Rightarrow> 'db \<Rightarrow> ColumnRequirement \<Rightarrow> Value list list \<times> rc" where
  "column_answer E db req = query_answer E (table_info_query (col_tableName req)) (\<lambda>i. NullValue) db"

definition declared_column :: "'db engine \<Rightarrow> 'db \<Rightarrow> ColumnRequirement \<Rightarrow> Value list option" where
  "declared_column E db req =
     find (\<lambda>row. sqlite3_column_text E (cell row 1) = col_columnName req)
       (fst (column_answer E db req))"

definition column_answered :: "'db engine \<Rightarrow> 'db \<Rightarrow> ColumnRequirement \<Rightarrow> bool" where
  "column_answered E db req =
     (sqlite3_prepare_v2 E (table_info_query (col_tableName req)) db = SQLITE_OK
      \<and> (declared_column E db req \<noteq> None
         \<or> final_code (snd (column_answer E db req)) = SQLITE_DONE))"

definition declared_errors :: "'db engine \<Rightarrow> ColumnRequirement \<Rightarrow> Value list \<Rightarrow> ValidationError list" where
  "declared_errors E req row =
     (if col_expectedType req \<noteq> []
         \<and> \<not> contains (map toupper (sqlite3_column_text E (cell row 2)))
                        (map toupper (col_expectedType req))
      then [wrong_type req (sqlite3_column_text E (cell row 2))] else [])
     @ (if col_requireNotNull req \<and> int32 (sqlite3_column_int E (cell row 3)) = 0
        then [nullable req] else [])"

definition column_errors :: "'db engine \<Rightarrow> 'db \<Rightarrow> ColumnRequirement \<Rightarrow> ValidationError list" where
  "column_errors E db req =
     (case declared_column E db req of
        None \<Rightarrow> [missing_column req]
      | Some row \<Rightarrow> declared_errors E req row)"

definition expected_errors :: "'db engine \<Rightarrow> SchemaValidator \<Rightarrow> 'db \<Rightarrow> ValidationError list" where
  "expected_errors E v db =
     concat (map (table_errors E db) (tableRequirements v))
     @ concat (map (column_errors E db) (columnRequirements v))
     @ concat (map (index_errors E db) (indexRequirements v))"

definition all_answered :: "'db engine \<Rightarrow> SchemaValidator \<Rightarrow> 'db \<Rightarrow> bool" where
  "all_answered E v db =
     ((\<forall>req \<in> set (tableRequirements v). table_answered E db req)
      \<and> (\<forall>req \<in> set (columnRequirements v). column_answered E db req)
      \<and> (\<forall>req \<in> set (indexRequirements v). index_answered E db req))"

text \<open>The error kinds one requirement of each group can contribute, in order.\<close>

definition table_kinds :: "string list list" where
  "table_kinds = [[], [''missing_table'']]"

definition column_kinds :: "string list list" where
  "column_kinds = [[''missing_column''], [], [''wrong_type''], [''nullable''],
                   [''wrong_type'', ''nullable'']]"

definition index_kinds :: "string list list" where
  "index_kinds = [[], [''missing_index'']]"

text \<open>
  A read-only engine given by the rows each statement yields, and the catalog of a
  database with the one table \<open>users (id INTEGER PRIMARY KEY, email varchar(40))\<close> and
  the index \<open>idx_users_email\<close> on it.
\<close>

definition catalog_engine :: "(string \<Rightarrow> (int \<Rightarrow> Value) \<Rightarrow> Value list list) \<Rightarrow> 'db engine" where
  "catalog_engine rows_of =
     \<lparr>sqlite3_exec = (\<lambda>sql db. ((SQLITE_OK, None), db)),
      sqlite3_errmsg = (\<lambda>db. ''engine error''),
      sqlite3_prepare_v2 = (\<lambda>sql db. SQLITE_OK),
      sqlite3_bind = (\<lambda>sql index. SQLITE_OK),
      sqlite3_step = (\<lambda>sql b db. ((rows_of sql b, SQLITE_DONE), db)),
      sqlite3_column_int = model_column_int,
      sqlite3_column_text = model_column_text\<rparr>"

definition users_catalog :: "string \<Rightarrow> (int \<Rightarrow> Value) \<Rightarrow> Value list list" where
  "users_catalog sql b =
     (if sql = ''SELECT 1 FROM sqlite_master WHERE type='table' AND name=?''
      then (if b 1 = Text ''users'' then [[Int64 1]] else [])
      else if sql = ''SELECT 1 FROM sqlite_master WHERE type='index' AND tbl_name=? AND name=?''
      then (if b 1 = Text ''users'' \<and> b 2 = Text ''idx_users_email'' then [[Int64 1]] else [])
      else if sql = ''PRAGMA table_info(users)''
      then [[Int64 0, Text ''id'', Text ''INTEGER'', Int64 0, NullValue, Int64 1],
            [Int64 1, Text ''email'', Text ''varchar(40)'', Int64 0, NullValue, Int64 0]]
      else [])"

text \<open>A statement as \<open>Connection::prepare\<close> and the binds leave it.\<close>

definition compiled :: "string \<Rightarrow> (int \<Rightarrow> Value) \<Rightarrow> Statement" where
  "compiled sql b = \<lparr>stmt_sql = sql, bindings = b, cursor = None, current_row = []\<rparr>"

definition insert_bindings :: "int \<Rightarrow> string \<Rightarrow> int \<Rightarrow> Value" where
  "insert_bindings v d = (\<lambda>i. NullValue)(1 := Int64 v, 2 := Text d)"


text \<open>The state after \<open>CREATE TABLE IF NOT EXISTS __migrations\<close>, and the version it holds.\<close>

definition with_table :: "'u connection_state \<Rightarrow> 'u connection_state" where
  "with_table db =
     (case migrations_table (live db) of
        None \<Rightarrow> db\<lparr>live := (live db)\<lparr>migrations_table := Some []\<rparr>\<rparr>
      | Some rows \<Rightarrow> db)"

definition max_version :: "(int \<times> string) list \<Rightarrow> int" where
  "max_version rows = (if rows = [] then 0 else Max (set (map fst rows)))"

text \<open>
  A migration set as a sequence of \<open>add\<close> calls leaves it: keys ascending and distinct,
  each unit stored under its own positive version. And a set whose versions are values of
  the C type \<open>int\<close>, as \<open>Migration::version\<close> is declared.
\<close>

definition registered :: "'db MigrationManager \<Rightarrow> bool" where
  "registered M =
     (sorted (map fst M) \<and> distinct (map fst M)
      \<and> (\<forall>km \<in> set M. version (snd km) = fst km \<and> 0 < fst km))"

definition int_versions :: "'db MigrationManager \<Rightarrow> bool" where
  "int_versions M = (\<forall>km \<in> set M. int32 (fst km) = fst km)"

text \<open>A migration set all of whose procedures leave bookkeeping and transaction alone.\<close>

definition well_behaved :: "'u connection_state MigrationManager \<Rightarrow> bool" where
  "well_behaved M =
     (\<forall>km \<in> set M. (\<forall>p. up (snd km) = Some p \<longrightarrow> user_data_only p)
                  \<and> (\<forall>p. down (snd km) = Some p \<longrightarrow> user_data_only p))"

definition description_of :: "'db MigrationManager \<Rightarrow> int \<Rightarrow> string" where
  "description_of M v = (case map_of M v of None \<Rightarrow> [] | Some m \<Rightarrow> description m)"

definition up_of :: "'db MigrationManager \<Rightarrow> int \<Rightarrow> 'db procedure" where
  "up_of M v = (case map_of M v of None \<Rightarrow> None | Some m \<Rightarrow> up m)"


text \<open>
  The spec's words for one unit of \<open>applyTo\<close>: open a transaction scoped to the unit, run
  its up procedure, insert its bookkeeping record, commit. And for one unit of
  \<open>rollbackTo\<close>: open a transaction, run the down procedure, delete the record, commit.
\<close>

definition apply_unit ::
  "'u connection_state MigrationManager \<Rightarrow> int \<Rightarrow> 'u connection_state \<Rightarrow> 'u connection_state" where
  "apply_unit M v db =
     (let opened = db\<lparr>journal := Some (live db)\<rparr>;
          migrated = snd (call (up_of M v) opened);
          recorded = migrated\<lparr>live := (live migrated)\<lparr>migrations_table :=
                        Some (records migrated @ [(v, description_of M v)])\<rparr>\<rparr>
      in recorded\<lparr>journal := None\<rparr>)"


text \<open>
  A concrete setting: user data is the list of the user tables, the three units of the
  repository's \<open>migration_partial\<close> test each create one table (unit 2 has no down
  procedure), and a fault plan under which the disk is full when the bookkeeping record
  of one version is inserted.
\<close>

definition create_table ::
  "string \<Rightarrow> string list connection_state \<Rightarrow> (exn + unit) \<times> string list connection_state" where
  "create_table name db =
     (if name \<in> set (user_data (live db))
      then (Inl (QueryException (''table '' @ name @ '' already exists'')
                   (''CREATE TABLE '' @ name @ '' (id INTEGER)'') SQLITE_ERROR), db)
      else (Inr (), db\<lparr>live := (live db)\<lparr>user_data := user_data (live db) @ [name]\<rparr>\<rparr>))"

definition drop_table ::
  "string \<Rightarrow> string list connection_state \<Rightarrow> (exn + unit) \<times> string list connection_state" where
  "drop_table name db =
     (if name \<notin> set (user_data (live db))
      then (Inl (QueryException (''no such table: '' @ name) (''DROP TABLE '' @ name)
                   SQLITE_ERROR), db)
      else (Inr (), db\<lparr>live := (live db)\<lparr>user_data := removeAll name (user_data (live db))\<rparr>\<rparr>))"

definition unit_v1 :: "string list connection_state Migration" where
  "unit_v1 = \<lparr>version = 1, description = ''v1'', up = Some (create_table ''v1''),
              down = Some (drop_table ''v1'')\<rparr>"

definition unit_v2 :: "string list connection_state Migration" where
  "unit_v2 = \<lparr>version = 2, description = ''v2'', up = Some (create_table ''v2''), down = None\<rparr>"

definition unit_v3 :: "string list connection_state Migration" where
  "unit_v3 = \<lparr>version = 3, description = ''v3'', up = Some (create_table ''v3''),
              down = Some (drop_table ''v3'')\<rparr>"

definition example_migrations :: "string list connection_state MigrationManager" where
  "example_migrations = [(1, unit_v1), (2, unit_v2), (3, unit_v3)]"

definition database ::
  "(int \<times> string) list option \<Rightarrow> string list \<Rightarrow> string list connection_state" where
  "database rows tables = \<lparr>live = \<lparr>migrations_table = rows, user_data = tables\<rparr>, journal = None\<rparr>"





section \<open>Properties over every engine\<close>

subsection \<open>Connection::execute\<close>

lemma Connection_execute_state:
  "snd (Connection_execute E sql db) = snd (sqlite3_exec E sql db)"
  by (auto simp: Connection_execute_def Let_def split: prod.splits)

lemma Connection_execute_Inr:
  "Connection_execute E sql db = (Inr u, db') \<longleftrightarrow>
     fst (fst (sqlite3_exec E sql db)) = SQLITE_OK \<and> db' = snd (sqlite3_exec E sql db)"
  by (auto simp: Connection_execute_def Let_def split: prod.splits)

lemma Connection_execute_Inl:
  "Connection_execute E sql db = (Inl e, db') \<Longrightarrow>
     fst (fst (sqlite3_exec E sql db)) \<noteq> SQLITE_OK \<and> db' = snd (sqlite3_exec E sql db)"
  by (auto simp: Connection_execute_def Let_def split: prod.splits if_splits)

subsection \<open>Destructors\<close>

lemma Transaction_dtor_state:
  "snd (Transaction_dtor E t db) =
     (if txn_active t \<and> txn_conn t then snd (sqlite3_exec E ''ROLLBACK'' db) else db)"
  by (auto simp: Transaction_dtor_def Connection_execute_state [symmetric]
      split: prod.splits sum.splits)

lemma Savepoint_dtor_state:
  "snd (Savepoint_dtor E sp db) =
     (if sp_active sp \<and> sp_conn sp
      then snd (sqlite3_exec E (''RELEASE SAVEPOINT '' @ sp_name sp) db) else db)"
  by (auto simp: Savepoint_dtor_def Connection_execute_state [symmetric]
      split: prod.splits sum.splits)

text \<open>
  A live object points to its connection: the constructor sets both members, and a move
  clears both in the object moved from.
\<close>

lemma Transaction_ctor_live:
  "Transaction_ctor E ty db = (Inr t, db') \<Longrightarrow> txn_active t \<and> txn_conn t"
  by (auto simp: Transaction_ctor_def split: prod.splits sum.splits)

lemma Transaction_move_live:
  "txn_active t \<longrightarrow> txn_conn t \<Longrightarrow>
     (txn_active (fst (Transaction_move t)) \<longrightarrow> txn_conn (fst (Transaction_move t)))
     \<and> \<not> txn_active (snd (Transaction_move t))"
  by (simp add: Transaction_move_def)

text \<open>
  Claim C4. Destroying a transaction that is still active sends \<open>ROLLBACK\<close> to the
  engine, destroying a savepoint that is still active sends \<open>RELEASE SAVEPOINT\<close> with its
  name, and neither destructor ever raises, whatever the engine answers. This holds for
  every engine: the state after the destructor is the state after that one engine call,
  and on the recording engine the text received is exactly that command.
\<close>

theorem destructors_clean_up_and_swallow:
  "fst (Transaction_dtor E t db) = Inr ()
   \<and> fst (Savepoint_dtor E sp db) = Inr ()
   \<and> (txn_active t \<and> txn_conn t \<longrightarrow>
        snd (Transaction_dtor E t db) = snd (sqlite3_exec E ''ROLLBACK'' db))
   \<and> (sp_active sp \<and> sp_conn sp \<longrightarrow>
        snd (Savepoint_dtor E sp db)
          = snd (sqlite3_exec E (''RELEASE SAVEPOINT '' @ sp_name sp) db))
   \<and> (txn_active t \<and> txn_conn t \<longrightarrow>
        snd (Transaction_dtor (recording_engine answer rows_of) t log) = log @ [''ROLLBACK''])
   \<and> (sp_active sp \<and> sp_conn sp \<longrightarrow>
        snd (Savepoint_dtor (recording_engine answer rows_of) sp log)
          = log @ [''RELEASE SAVEPOINT '' @ sp_name sp])"
proof -
  have a: "fst (Transaction_dtor E t db) = Inr ()"
    by (auto simp: Transaction_dtor_def split: prod.splits sum.splits)
  have b: "fst (Savepoint_dtor E sp db) = Inr ()"
    by (auto simp: Savepoint_dtor_def split: prod.splits sum.splits)
  show ?thesis
    using a b by (simp add: Transaction_dtor_state Savepoint_dtor_state recording_engine_def)
qed

text \<open>
  An engine that refuses everything with code 1: both destructors return normally and
  the engine has received the one command.
\<close>

theorem destructors_clean_up_and_swallow_witness:
  "Transaction_dtor (recording_engine (\<lambda>sql. 1) (\<lambda>sql. []))
        \<lparr>txn_conn = True, txn_active = True\<rparr> []
     = (Inr (), [''ROLLBACK''])
   \<and> Savepoint_dtor (recording_engine (\<lambda>sql. 1) (\<lambda>sql. []))
        \<lparr>sp_conn = True, sp_name = ''sp1'', sp_active = True\<rparr> []
     = (Inr (), [''RELEASE SAVEPOINT sp1''])
   \<and> fst (fst (sqlite3_exec (recording_engine (\<lambda>sql. 1) (\<lambda>sql. [])) ''ROLLBACK'' []))
       \<noteq> SQLITE_OK"
  using destructors_clean_up_and_swallow
    [of "recording_engine (\<lambda>sql. 1) (\<lambda>sql. [])" "\<lparr>txn_conn = True, txn_active = True\<rparr>" "[]"
        "\<lparr>sp_conn = True, sp_name = ''sp1'', sp_active = True\<rparr>" "\<lambda>sql. 1" "\<lambda>sql. []" "[]"]
  by (simp add: prod_eq_iff recording_engine_def SQLITE_OK_def)

subsection \<open>Constraint violations\<close>

text \<open>
  Claim C5. \<open>Connection::execute\<close> masks the result code with \<open>0xFF\<close> before comparing it
  with the constraint code; \<open>Statement::execute\<close> compares the unmasked code. With the
  extended code 2067 (a uniqueness violation, \<open>19 | (8 << 8)\<close>) the first raises
  \<open>ConstraintException\<close> and the second \<open>QueryException\<close>.
\<close>

theorem Statement_execute_misses_extended_constraint_code:
  "and (2067::int) 0xFF = SQLITE_CONSTRAINT
   \<and> fst (Connection_execute (recording_engine (\<lambda>sql. 2067) (\<lambda>sql. []))
            ''INSERT INTO t (email) VALUES ('a')'' [])
       = Inl (ConstraintException ''Unknown error'' 2067)
   \<and> fst (Statement_execute (recording_engine (\<lambda>sql. 2067) (\<lambda>sql. []))
            (compiled ''INSERT INTO t (email) VALUES (?)'' (\<lambda>i. NullValue)) [])
       = Inl (QueryException ''engine error'' ''INSERT INTO t (email) VALUES (?)'' 2067)"
  by (simp add: Connection_execute_def Statement_execute_def step_handle_def recording_engine_def
      compiled_def final_code_def SQLITE_OK_def SQLITE_CONSTRAINT_def SQLITE_ROW_def SQLITE_DONE_def)

subsection \<open>Statement::execute\<close>




subsection \<open>Savepoints\<close>

text \<open>
  The public constructor of \<open>Savepoint\<close> on a connection that has never been sent a
  \<open>BEGIN\<close>: the \<open>SAVEPOINT\<close> command goes to the engine and the savepoint is created.
\<close>

theorem Savepoint_ctor_without_transaction_counterexample:
  "Savepoint_ctor (recording_engine (\<lambda>sql. SQLITE_OK) (\<lambda>sql. [])) ''sp1'' []
     = (Inr \<lparr>sp_conn = True, sp_name = ''sp1'', sp_active = True\<rparr>, [''SAVEPOINT sp1''])"
  by (simp add: Savepoint_ctor_def Connection_execute_def recording_engine_def SQLITE_OK_def)

text \<open>
  Claim C9, as amended. \<open>Transaction::savepoint\<close> on a transaction object that is no
  longer active (committed or rolled back) raises \<open>TransactionException\<close> and sends
  nothing to the engine: the connection state is unchanged, for every engine.
\<close>

theorem savepoint_on_ended_transaction:
  "\<not> txn_active t \<Longrightarrow>
     Transaction_savepoint E t name db
       = (Inl (TransactionException ''Cannot create savepoint: transaction not active'' 0), db)"
  by (simp add: Transaction_savepoint_def)

theorem savepoint_on_ended_transaction_witness:
  "\<not> txn_active \<lparr>txn_conn = True, txn_active = False\<rparr>
   \<and> Transaction_savepoint (recording_engine (\<lambda>sql. SQLITE_OK) (\<lambda>sql. []))
        \<lparr>txn_conn = True, txn_active = False\<rparr> ''sp1'' []
       = (Inl (TransactionException ''Cannot create savepoint: transaction not active'' 0), [])"
  using savepoint_on_ended_transaction
    [of "\<lparr>txn_conn = True, txn_active = False\<rparr>"
        "recording_engine (\<lambda>sql. SQLITE_OK) (\<lambda>sql. [])" "''sp1''" "[]"]
  by simp

subsection \<open>commit and rollback\<close>

text \<open>
  Claim C10. On an active transaction, when the engine refuses \<open>COMMIT\<close> (or
  \<open>ROLLBACK\<close>), \<open>commit()\<close> (or \<open>rollback()\<close>) raises and leaves the object as it was, so
  it is still active and its destructor then sends \<open>ROLLBACK\<close>; when the engine accepts,
  the call returns normally and the object is inactive. Either way exactly that one
  command has reached the engine.
\<close>

theorem commit_rollback_keep_active_on_failure:
  assumes "txn_active t" and "txn_conn t"
  shows "(fst (fst (sqlite3_exec E ''COMMIT'' db)) \<noteq> SQLITE_OK \<longrightarrow>
            (\<exists>e. fst (Transaction_commit E t db) = Inl e)
          \<and> fst (snd (Transaction_commit E t db)) = t
          \<and> txn_active (fst (snd (Transaction_commit E t db)))
          \<and> snd (Transaction_dtor E (fst (snd (Transaction_commit E t db)))
                   (snd (snd (Transaction_commit E t db))))
              = snd (sqlite3_exec E ''ROLLBACK'' (snd (snd (Transaction_commit E t db)))))
       \<and> (fst (fst (sqlite3_exec E ''COMMIT'' db)) = SQLITE_OK \<longrightarrow>
            fst (Transaction_commit E t db) = Inr ()
          \<and> \<not> txn_active (fst (snd (Transaction_commit E t db))))
       \<and> (fst (fst (sqlite3_exec E ''ROLLBACK'' db)) \<noteq> SQLITE_OK \<longrightarrow>
            (\<exists>e. fst (Transaction_rollback E t db) = Inl e)
          \<and> fst (snd (Transaction_rollback E t db)) = t
          \<and> txn_active (fst (snd (Transaction_rollback E t db)))
          \<and> snd (Transaction_dtor E (fst (snd (Transaction_rollback E t db)))
                   (snd (snd (Transaction_rollback E t db))))
              = snd (sqlite3_exec E ''ROLLBACK'' (snd (snd (Transaction_rollback E t db)))))
       \<and> (fst (fst (sqlite3_exec E ''ROLLBACK'' db)) = SQLITE_OK \<longrightarrow>
            fst (Transaction_rollback E t db) = Inr ()
          \<and> \<not> txn_active (fst (snd (Transaction_rollback E t db))))
       \<and> snd (snd (Transaction_commit E t db)) = snd (sqlite3_exec E ''COMMIT'' db)
       \<and> snd (snd (Transaction_rollback E t db)) = snd (sqlite3_exec E ''ROLLBACK'' db)"
  using assms
  by (auto simp: Transaction_commit_def Transaction_rollback_def Transaction_dtor_def
      Connection_execute_def Let_def split: prod.splits sum.splits)

text \<open>
  An engine that answers \<open>COMMIT\<close> with code 5 (busy) and accepts everything else: the
  commit raises, the object stays active, and the destructor's \<open>ROLLBACK\<close> follows.
\<close>

theorem commit_rollback_keep_active_on_failure_witness:
  "txn_active \<lparr>txn_conn = True, txn_active = True\<rparr>
   \<and> txn_conn \<lparr>txn_conn = True, txn_active = True\<rparr>
   \<and> fst (fst (sqlite3_exec (recording_engine (\<lambda>sql. if sql = ''COMMIT'' then 5 else 0) (\<lambda>sql. []))
                  ''COMMIT'' [])) \<noteq> SQLITE_OK
   \<and> txn_active (fst (snd (Transaction_commit
        (recording_engine (\<lambda>sql. if sql = ''COMMIT'' then 5 else 0) (\<lambda>sql. []))
        \<lparr>txn_conn = True, txn_active = True\<rparr> [])))
   \<and> snd (Transaction_dtor
        (recording_engine (\<lambda>sql. if sql = ''COMMIT'' then 5 else 0) (\<lambda>sql. []))
        (fst (snd (Transaction_commit
           (recording_engine (\<lambda>sql. if sql = ''COMMIT'' then 5 else 0) (\<lambda>sql. []))
           \<lparr>txn_conn = True, txn_active = True\<rparr> [])))
        (snd (snd (Transaction_commit
           (recording_engine (\<lambda>sql. if sql = ''COMMIT'' then 5 else 0) (\<lambda>sql. []))
           \<lparr>txn_conn = True, txn_active = True\<rparr> []))))
     = [''COMMIT'', ''ROLLBACK'']"
proof -
  have a: "txn_active \<lparr>txn_conn = True, txn_active = True\<rparr>"
    and c: "txn_conn \<lparr>txn_conn = True, txn_active = True\<rparr>"
    by simp_all
  show ?thesis
    using commit_rollback_keep_active_on_failure [OF a c,
        of "recording_engine (\<lambda>sql. if sql = ''COMMIT'' then 5 else 0) (\<lambda>sql. [])" "[]"]
    by (simp add: recording_engine_def SQLITE_OK_def Transaction_commit_def Transaction_dtor_def
        Connection_execute_def SQLITE_CONSTRAINT_def rethrow_as_TransactionException_def)
qed

section \<open>SchemaValidator: building the requirements\<close>

lemma requireNotNull_loop_None:
  "(requireNotNull_loop t c reqs = None)
     = (filter (\<lambda>req. col_tableName req = t \<and> col_columnName req = c) reqs = [])"
  by (induction reqs) auto

lemma requireNotNull_loop_append_hit:
  "filter (\<lambda>req. col_tableName req = t \<and> col_columnName req = c) reqs = [] \<Longrightarrow>
   col_tableName r = t \<Longrightarrow> col_columnName r = c \<Longrightarrow>
   requireNotNull_loop t c (reqs @ (r::ColumnRequirement) # rest)
     = Some (reqs @ r\<lparr>col_requireNotNull := True\<rparr> # rest)"
  by (induction reqs) (auto split: if_splits)

lemma requireNotNull_loop_count:
  "requireNotNull_loop t c reqs = Some reqs' \<Longrightarrow>
     length (filter (\<lambda>req. col_tableName req = t \<and> col_columnName req = c) reqs')
       = length (filter (\<lambda>req. col_tableName req = t \<and> col_columnName req = c) reqs)"
  by (induction reqs arbitrary: reqs') (auto split: if_splits)

text \<open>
  \<open>requireNotNull\<close> first and \<open>requireColumn\<close> second, on a new validator: the pair
  (users, name) has two entries, one with the flag and one with the type.
\<close>

theorem requireColumn_after_requireNotNull_counterexample:
  "columnRequirements (requireColumn ''users'' ''name'' ''TEXT''
      (requireNotNull ''users'' ''name'' SchemaValidator_ctor))
   = [\<lparr>col_tableName = ''users'', col_columnName = ''name'', col_expectedType = [],
       col_requireNotNull = True\<rparr>,
      \<lparr>col_tableName = ''users'', col_columnName = ''name'', col_expectedType = ''TEXT'',
       col_requireNotNull = False\<rparr>]
   \<and> length (entries_for ''users'' ''name'' (requireColumn ''users'' ''name'' ''TEXT''
      (requireNotNull ''users'' ''name'' SchemaValidator_ctor))) = 2"
  by (simp add: requireColumn_def requireNotNull_def SchemaValidator_ctor_def entries_for_def)

text \<open>
  Claim C7, as amended. \<open>requireColumn\<close> always appends an entry with the given type and
  the flag unset, whatever entries the pair has. \<open>requireNotNull\<close> changes one entry: when
  the pair has no entry it appends one with the flag and an empty type; otherwise it sets
  the flag on the first entry of the pair and leaves every other entry, and the order,
  as they are. Neither touches the table or index requirements. So for a pair the
  validator holds no entry for, \<open>requireColumn\<close> followed by \<open>requireNotNull\<close> leaves a
  single merged entry with the expected type and the flag, while \<open>requireNotNull\<close>
  followed by \<open>requireColumn\<close> leaves two entries, the first with the flag and no type,
  the second with the type and no flag.
\<close>

theorem requireNotNull_merges_requireColumn_appends:
  assumes "entries_for t c v = []"
  shows "columnRequirements (requireNotNull t c (requireColumn t c ty v))
           = columnRequirements v @
             [\<lparr>col_tableName = t, col_columnName = c, col_expectedType = ty,
               col_requireNotNull = True\<rparr>]
       \<and> columnRequirements (requireColumn t c ty (requireNotNull t c v))
           = columnRequirements v @
             [\<lparr>col_tableName = t, col_columnName = c, col_expectedType = [],
               col_requireNotNull = True\<rparr>,
              \<lparr>col_tableName = t, col_columnName = c, col_expectedType = ty,
               col_requireNotNull = False\<rparr>]
       \<and> length (entries_for t c (requireNotNull t c (requireColumn t c ty v))) = 1
       \<and> length (entries_for t c (requireColumn t c ty (requireNotNull t c v))) = 2
       \<and> length (entries_for t c (requireColumn t c ty w)) = Suc (length (entries_for t c w))
       \<and> length (entries_for t c (requireNotNull t c w)) = max 1 (length (entries_for t c w))
       \<and> columnRequirements (requireColumn t c ty w)
           = columnRequirements w @
             [\<lparr>col_tableName = t, col_columnName = c, col_expectedType = ty,
               col_requireNotNull = False\<rparr>]
       \<and> tableRequirements (requireColumn t c ty w) = tableRequirements w
       \<and> indexRequirements (requireColumn t c ty w) = indexRequirements w
       \<and> tableRequirements (requireNotNull t c w) = tableRequirements w
       \<and> indexRequirements (requireNotNull t c w) = indexRequirements w
       \<and> (entries_for t c w = [] \<longrightarrow>
            columnRequirements (requireNotNull t c w)
              = columnRequirements w @
                [\<lparr>col_tableName = t, col_columnName = c, col_expectedType = [],
                  col_requireNotNull = True\<rparr>])
       \<and> (columnRequirements u = before @ r # after
            \<and> (\<forall>req \<in> set before. \<not> (col_tableName req = t \<and> col_columnName req = c))
            \<and> col_tableName r = t \<and> col_columnName r = c \<longrightarrow>
            columnRequirements (requireNotNull t c u)
              = before @ r\<lparr>col_requireNotNull := True\<rparr> # after)"
proof -
  from assms have f: "filter (\<lambda>req. col_tableName req = t \<and> col_columnName req = c)
      (columnRequirements v) = []"
    by (simp add: entries_for_def)
  from f have none: "requireNotNull_loop t c (columnRequirements v) = None"
    by (simp add: requireNotNull_loop_None)
  have hit: "requireNotNull_loop t c (columnRequirements v @
      [\<lparr>col_tableName = t, col_columnName = c, col_expectedType = ty, col_requireNotNull = False\<rparr>])
      = Some (columnRequirements v @
      [\<lparr>col_tableName = t, col_columnName = c, col_expectedType = ty, col_requireNotNull = True\<rparr>])"
    using requireNotNull_loop_append_hit [OF f, of
        "\<lparr>col_tableName = t, col_columnName = c, col_expectedType = ty, col_requireNotNull = False\<rparr>"
        "[]"]
    by simp
  have a: "columnRequirements (requireNotNull t c (requireColumn t c ty v))
           = columnRequirements v @
             [\<lparr>col_tableName = t, col_columnName = c, col_expectedType = ty,
               col_requireNotNull = True\<rparr>]"
    using hit by (simp add: requireNotNull_def requireColumn_def)
  have b: "columnRequirements (requireColumn t c ty (requireNotNull t c v))
           = columnRequirements v @
             [\<lparr>col_tableName = t, col_columnName = c, col_expectedType = [],
               col_requireNotNull = True\<rparr>,
              \<lparr>col_tableName = t, col_columnName = c, col_expectedType = ty,
               col_requireNotNull = False\<rparr>]"
    using none by (simp add: requireNotNull_def requireColumn_def)
  have a1: "length (entries_for t c (requireNotNull t c (requireColumn t c ty v))) = 1"
    using a f by (simp add: entries_for_def)
  have b1: "length (entries_for t c (requireColumn t c ty (requireNotNull t c v))) = 2"
    using b f by (simp add: entries_for_def)
  have g1: "length (entries_for t c (requireColumn t c ty w)) = Suc (length (entries_for t c w))"
    by (simp add: entries_for_def requireColumn_def)
  have g2: "length (entries_for t c (requireNotNull t c w)) = max 1 (length (entries_for t c w))"
  proof (cases "requireNotNull_loop t c (columnRequirements w)")
    case None
    then have "filter (\<lambda>req. col_tableName req = t \<and> col_columnName req = c)
        (columnRequirements w) = []"
      by (simp add: requireNotNull_loop_None)
    then show ?thesis
      by (simp add: entries_for_def requireNotNull_def None)
  next
    case (Some reqs)
    then have "filter (\<lambda>req. col_tableName req = t \<and> col_columnName req = c)
        (columnRequirements w) \<noteq> []"
      using requireNotNull_loop_None [of t c "columnRequirements w"] by simp
    then have "1 \<le> length (entries_for t c w)"
      by (cases "entries_for t c w") (simp_all add: entries_for_def)
    with Some requireNotNull_loop_count [OF Some] show ?thesis
      by (simp add: entries_for_def requireNotNull_def max_def)
  qed
  have c1: "columnRequirements (requireColumn t c ty w)
           = columnRequirements w @
             [\<lparr>col_tableName = t, col_columnName = c, col_expectedType = ty,
               col_requireNotNull = False\<rparr>]"
    and c2: "tableRequirements (requireColumn t c ty w) = tableRequirements w"
    and c3: "indexRequirements (requireColumn t c ty w) = indexRequirements w"
    by (simp_all add: requireColumn_def)
  have n1: "tableRequirements (requireNotNull t c w) = tableRequirements w"
    and n2: "indexRequirements (requireNotNull t c w) = indexRequirements w"
    by (simp_all add: requireNotNull_def split: option.splits)
  have n3: "entries_for t c w = [] \<longrightarrow>
            columnRequirements (requireNotNull t c w)
              = columnRequirements w @
                [\<lparr>col_tableName = t, col_columnName = c, col_expectedType = [],
                  col_requireNotNull = True\<rparr>]"
  proof
    assume "entries_for t c w = []"
    then have "requireNotNull_loop t c (columnRequirements w) = None"
      by (simp add: entries_for_def requireNotNull_loop_None)
    then show "columnRequirements (requireNotNull t c w)
              = columnRequirements w @
                [\<lparr>col_tableName = t, col_columnName = c, col_expectedType = [],
                  col_requireNotNull = True\<rparr>]"
      by (simp add: requireNotNull_def)
  qed
  have n4: "columnRequirements u = before @ r # after
            \<and> (\<forall>req \<in> set before. \<not> (col_tableName req = t \<and> col_columnName req = c))
            \<and> col_tableName r = t \<and> col_columnName r = c \<longrightarrow>
            columnRequirements (requireNotNull t c u)
              = before @ r\<lparr>col_requireNotNull := True\<rparr> # after"
  proof
    assume h: "columnRequirements u = before @ r # after
            \<and> (\<forall>req \<in> set before. \<not> (col_tableName req = t \<and> col_columnName req = c))
            \<and> col_tableName r = t \<and> col_columnName r = c"
    then have "filter (\<lambda>req. col_tableName req = t \<and> col_columnName req = c) before = []"
      by (simp add: filter_empty_conv)
    then have "requireNotNull_loop t c (before @ r # after)
        = Some (before @ r\<lparr>col_requireNotNull := True\<rparr> # after)"
      using h by (simp add: requireNotNull_loop_append_hit)
    with h show "columnRequirements (requireNotNull t c u)
              = before @ r\<lparr>col_requireNotNull := True\<rparr> # after"
      by (simp add: requireNotNull_def)
  qed
  show ?thesis
    using a b a1 b1 g1 g2 c1 c2 c3 n1 n2 n3 n4 by blast
qed

text \<open>
  The chain of the repository's own test: id, then name with its type, then NOT NULL.
  And a validator that holds two entries for (users, name) after an entry for id: the
  flag goes to the first of the two only.
\<close>

theorem requireNotNull_merges_requireColumn_appends_witness:
  "entries_for ''users'' ''name'' (requireColumn ''users'' ''id'' ''INTEGER'' SchemaValidator_ctor) = []
   \<and> columnRequirements (requireNotNull ''users'' ''name'' (requireColumn ''users'' ''name'' ''TEXT''
        (requireColumn ''users'' ''id'' ''INTEGER'' SchemaValidator_ctor)))
     = [\<lparr>col_tableName = ''users'', col_columnName = ''id'', col_expectedType = ''INTEGER'',
         col_requireNotNull = False\<rparr>,
        \<lparr>col_tableName = ''users'', col_columnName = ''name'', col_expectedType = ''TEXT'',
         col_requireNotNull = True\<rparr>]
   \<and> columnRequirements (requireNotNull ''users'' ''name''
        (requireColumn ''users'' ''id'' ''INTEGER'' SchemaValidator_ctor))
     = [\<lparr>col_tableName = ''users'', col_columnName = ''id'', col_expectedType = ''INTEGER'',
         col_requireNotNull = False\<rparr>,
        \<lparr>col_tableName = ''users'', col_columnName = ''name'', col_expectedType = [],
         col_requireNotNull = True\<rparr>]
   \<and> columnRequirements (requireNotNull ''users'' ''name''
        (requireColumn ''users'' ''name'' ''VARCHAR'' (requireColumn ''users'' ''name'' ''TEXT''
          (requireColumn ''users'' ''id'' ''INTEGER'' SchemaValidator_ctor))))
     = [\<lparr>col_tableName = ''users'', col_columnName = ''id'', col_expectedType = ''INTEGER'',
         col_requireNotNull = False\<rparr>,
        \<lparr>col_tableName = ''users'', col_columnName = ''name'', col_expectedType = ''TEXT'',
         col_requireNotNull = True\<rparr>,
        \<lparr>col_tableName = ''users'', col_columnName = ''name'', col_expectedType = ''VARCHAR'',
         col_requireNotNull = False\<rparr>]"
proof -
  let ?v = "requireColumn ''users'' ''id'' ''INTEGER'' SchemaValidator_ctor"
  let ?u = "requireColumn ''users'' ''name'' ''VARCHAR'' (requireColumn ''users'' ''name'' ''TEXT'' ?v)"
  let ?id = "\<lparr>col_tableName = ''users'', col_columnName = ''id'', col_expectedType = ''INTEGER'',
         col_requireNotNull = False\<rparr>"
  let ?r = "\<lparr>col_tableName = ''users'', col_columnName = ''name'', col_expectedType = ''TEXT'',
         col_requireNotNull = False\<rparr>"
  let ?r2 = "\<lparr>col_tableName = ''users'', col_columnName = ''name'', col_expectedType = ''VARCHAR'',
         col_requireNotNull = False\<rparr>"
  have h: "entries_for ''users'' ''name'' ?v = []"
    by (simp add: entries_for_def requireColumn_def SchemaValidator_ctor_def)
  have cv: "columnRequirements ?v = [?id]"
    by (simp add: requireColumn_def SchemaValidator_ctor_def)
  have split: "columnRequirements ?u = [?id] @ ?r # [?r2]
       \<and> (\<forall>req \<in> set [?id]. \<not> (col_tableName req = ''users'' \<and> col_columnName req = ''name''))
       \<and> col_tableName ?r = ''users'' \<and> col_columnName ?r = ''name''"
    by (simp add: requireColumn_def SchemaValidator_ctor_def)
  note T = requireNotNull_merges_requireColumn_appends
    [OF h, of "''TEXT''" ?v ?u "[?id]" ?r "[?r2]"]
  have 1: "columnRequirements (requireNotNull ''users'' ''name''
             (requireColumn ''users'' ''name'' ''TEXT'' ?v))
           = columnRequirements ?v @ [?r\<lparr>col_requireNotNull := True\<rparr>]"
    using T by simp
  have 2: "columnRequirements (requireNotNull ''users'' ''name'' ?v)
           = columnRequirements ?v @
             [\<lparr>col_tableName = ''users'', col_columnName = ''name'', col_expectedType = [],
               col_requireNotNull = True\<rparr>]"
    using T h by blast
  have 3: "columnRequirements (requireNotNull ''users'' ''name'' ?u)
           = [?id] @ ?r\<lparr>col_requireNotNull := True\<rparr> # [?r2]"
    using T split by blast
  show ?thesis
    using h 1 2 3 cv by simp
qed
section \<open>SchemaValidator: validate\<close>

lemma step_handle_read_only: "read_only E \<Longrightarrow> snd (step_handle E stmt db) = db"
  by (auto simp: step_handle_def read_only_def split: option.splits prod.splits list.splits)
     (metis snd_conv)+

lemma Statement_step_read_only:
  "read_only E \<Longrightarrow> Statement_step E stmt db = (r, stmt', db') \<Longrightarrow> db' = db"
  using step_handle_read_only [of E stmt db]
  by (auto simp: Statement_step_def split: prod.splits if_splits)

lemma check_found_column_acc:
  "check_found_column E req stmt acc = acc @ check_found_column E req stmt []"
  by (simp add: check_found_column_def Let_def)

lemma table_info_loop_acc:
  "table_info_loop E req stmt acc db =
     (case table_info_loop E req stmt [] db of
        (Inl e, db') \<Rightarrow> (Inl e, db')
      | (Inr (found, es), db') \<Rightarrow> (Inr (found, acc @ es), db'))"
proof (induction E req stmt acc db rule: table_info_loop.induct)
  case (1 E req stmt errors db)
  show ?case
    apply (subst table_info_loop.simps)
    apply (subst (2) table_info_loop.simps)
    using 1 check_found_column_acc [of E req _ errors]
    apply (auto simp: Let_def split: prod.splits sum.splits)
    done
qed

lemma table_info_loop_read_only:
  "read_only E \<Longrightarrow> snd (table_info_loop E req stmt acc db) = db"
proof (induction E req stmt acc db rule: table_info_loop.induct)
  case (1 E req stmt errors db)
  show ?case
    apply (subst table_info_loop.simps)
    using 1 Statement_step_read_only [of E stmt db]
    apply (auto simp: Let_def split: prod.splits sum.splits)
    done
qed


lemma validate_tables_cons:
  assumes "read_only E"
  shows "validate_tables E (r # rs) acc db =
     (case fst (validate_tables E [r] [] db) of
        Inl e \<Rightarrow> (Inl e, db)
      | Inr es \<Rightarrow> validate_tables E rs (acc @ es) db)"
proof (cases "Statement_ctor E ''SELECT 1 FROM sqlite_master WHERE type='table' AND name=?'' db")
  case (Inl e)
  then show ?thesis by simp
next
  case c: (Inr stmt)
  show ?thesis
  proof (cases "Statement_bind E 1 (Text r) stmt db")
    case (Inl e)
    with c show ?thesis by simp
  next
    case b: (Inr stmt1)
    obtain res s d where st: "Statement_step E stmt1 db = (res, s, d)"
      by (cases "Statement_step E stmt1 db")
    have d: "d = db"
      using Statement_step_read_only [OF assms st] .
    show ?thesis
      using c b st d by (auto split: sum.splits)
  qed
qed

lemma validate_indexes_cons:
  assumes "read_only E"
  shows "validate_indexes E (r # rs) acc db =
     (case fst (validate_indexes E [r] [] db) of
        Inl e \<Rightarrow> (Inl e, db)
      | Inr es \<Rightarrow> validate_indexes E rs (acc @ es) db)"
proof (cases "Statement_ctor E
    ''SELECT 1 FROM sqlite_master WHERE type='index' AND tbl_name=? AND name=?'' db")
  case (Inl e)
  then show ?thesis by simp
next
  case c: (Inr stmt)
  show ?thesis
  proof (cases "Statement_bind E 1 (Text (idx_tableName r)) stmt db")
    case (Inl e)
    with c show ?thesis by simp
  next
    case b1: (Inr stmt1)
    show ?thesis
    proof (cases "Statement_bind E 2 (Text (idx_indexName r)) stmt1 db")
      case (Inl e)
      with c b1 show ?thesis by simp
    next
      case b2: (Inr stmt2)
      obtain res s d where st: "Statement_step E stmt2 db = (res, s, d)"
        by (cases "Statement_step E stmt2 db")
      have d: "d = db"
        using Statement_step_read_only [OF assms st] .
      show ?thesis
        using c b1 b2 st d by (auto split: sum.splits)
    qed
  qed
qed

lemma validate_columns_cons:
  assumes "read_only E"
  shows "validate_columns E (r # rs) acc db =
     (case fst (validate_columns E [r] [] db) of
        Inl e \<Rightarrow> (Inl e, db)
      | Inr es \<Rightarrow> validate_columns E rs (acc @ es) db)"
proof (cases "Statement_ctor E (''PRAGMA table_info('' @ col_tableName r @ '')'') db")
  case (Inl e)
  then show ?thesis by simp
next
  case (Inr stmt)
  obtain res db' where l0: "table_info_loop E r stmt [] db = (res, db')"
    by (cases "table_info_loop E r stmt [] db")
  have db': "db' = db"
    using table_info_loop_read_only [OF assms, of r stmt "[]" db] l0 by simp
  have la: "table_info_loop E r stmt acc db =
     (case res of Inl e \<Rightarrow> (Inl e, db) | Inr (found, es) \<Rightarrow> (Inr (found, acc @ es), db))"
    using table_info_loop_acc [of E r stmt acc db] l0 db'
    by (auto split: sum.splits prod.splits)
  show ?thesis
    using Inr l0 la db' by (auto split: sum.splits prod.splits)
qed

lemma validate_tables_result:
  assumes "read_only E"
  shows "validate_tables E rs acc db = (Inr errs, db') \<Longrightarrow>
     db' = db
     \<and> errs = acc @ concat (map (\<lambda>r. errors_of (validate_tables E [r] [] db)) rs)
     \<and> (\<forall>r \<in> set rs. \<exists>es. fst (validate_tables E [r] [] db) = Inr es)"
proof (induction rs arbitrary: acc)
  case Nil
  then show ?case by simp
next
  case (Cons r rs)
  from Cons.prems obtain es where es: "fst (validate_tables E [r] [] db) = Inr es"
    and rest: "validate_tables E rs (acc @ es) db = (Inr errs, db')"
    by (subst (asm) validate_tables_cons [OF assms]) (auto split: sum.splits)
  from Cons.IH [OF rest] es show ?case
    by (simp add: errors_of_def)
qed

lemma validate_columns_result:
  assumes "read_only E"
  shows "validate_columns E rs acc db = (Inr errs, db') \<Longrightarrow>
     db' = db
     \<and> errs = acc @ concat (map (\<lambda>r. errors_of (validate_columns E [r] [] db)) rs)
     \<and> (\<forall>r \<in> set rs. \<exists>es. fst (validate_columns E [r] [] db) = Inr es)"
proof (induction rs arbitrary: acc)
  case Nil
  then show ?case by simp
next
  case (Cons r rs)
  from Cons.prems obtain es where es: "fst (validate_columns E [r] [] db) = Inr es"
    and rest: "validate_columns E rs (acc @ es) db = (Inr errs, db')"
    by (subst (asm) validate_columns_cons [OF assms]) (auto split: sum.splits)
  from Cons.IH [OF rest] es show ?case
    by (simp add: errors_of_def)
qed

lemma validate_indexes_result:
  assumes "read_only E"
  shows "validate_indexes E rs acc db = (Inr errs, db') \<Longrightarrow>
     db' = db
     \<and> errs = acc @ concat (map (\<lambda>r. errors_of (validate_indexes E [r] [] db)) rs)
     \<and> (\<forall>r \<in> set rs. \<exists>es. fst (validate_indexes E [r] [] db) = Inr es)"
proof (induction rs arbitrary: acc)
  case Nil
  then show ?case by simp
next
  case (Cons r rs)
  from Cons.prems obtain es where es: "fst (validate_indexes E [r] [] db) = Inr es"
    and rest: "validate_indexes E rs (acc @ es) db = (Inr errs, db')"
    by (subst (asm) validate_indexes_cons [OF assms]) (auto split: sum.splits)
  from Cons.IH [OF rest] es show ?case
    by (simp add: errors_of_def)
qed

lemma validate_decomposes:
  assumes ro: "read_only E" and ok: "validate E v db = (Inr errs, db')"
  shows "db' = db
     \<and> errs = concat (map (\<lambda>r. errors_of (validate_tables E [r] [] db)) (tableRequirements v))
            @ concat (map (\<lambda>r. errors_of (validate_columns E [r] [] db)) (columnRequirements v))
            @ concat (map (\<lambda>r. errors_of (validate_indexes E [r] [] db)) (indexRequirements v))
     \<and> (\<forall>r \<in> set (tableRequirements v). \<exists>es. fst (validate_tables E [r] [] db) = Inr es)
     \<and> (\<forall>r \<in> set (columnRequirements v). \<exists>es. fst (validate_columns E [r] [] db) = Inr es)
     \<and> (\<forall>r \<in> set (indexRequirements v). \<exists>es. fst (validate_indexes E [r] [] db) = Inr es)"
proof -
  from ok obtain e1 d1 e2 d2 where
    t: "validate_tables E (tableRequirements v) [] db = (Inr e1, d1)" and
    c: "validate_columns E (columnRequirements v) e1 d1 = (Inr e2, d2)" and
    i: "validate_indexes E (indexRequirements v) e2 d2 = (Inr errs, db')"
    by (auto simp: validate_def split: prod.splits sum.splits)
  note T = validate_tables_result [OF ro t]
  from T have d1: "d1 = db" by simp
  note C = validate_columns_result [OF ro c [unfolded d1]]
  from C have d2: "d2 = db" by simp
  note I = validate_indexes_result [OF ro i [unfolded d2]]
  show ?thesis
    using T C I
    by (simp del: validate_tables.simps validate_columns.simps validate_indexes.simps)
qed

lemma validate_tables_total:
  assumes "read_only E"
  shows "(\<forall>r \<in> set rs. \<exists>es. fst (validate_tables E [r] [] db) = Inr es) \<Longrightarrow>
     \<exists>errs. validate_tables E rs acc db = (Inr errs, db)"
proof (induction rs arbitrary: acc)
  case Nil
  then show ?case by simp
next
  case (Cons r rs)
  from Cons.prems obtain es where es: "fst (validate_tables E [r] [] db) = Inr es"
    by auto
  from Cons.IH [of "acc @ es"] Cons.prems es show ?case
    by (subst validate_tables_cons [OF assms]) simp
qed

lemma validate_columns_total:
  assumes "read_only E"
  shows "(\<forall>r \<in> set rs. \<exists>es. fst (validate_columns E [r] [] db) = Inr es) \<Longrightarrow>
     \<exists>errs. validate_columns E rs acc db = (Inr errs, db)"
proof (induction rs arbitrary: acc)
  case Nil
  then show ?case by simp
next
  case (Cons r rs)
  from Cons.prems obtain es where es: "fst (validate_columns E [r] [] db) = Inr es"
    by auto
  from Cons.IH [of "acc @ es"] Cons.prems es show ?case
    by (subst validate_columns_cons [OF assms]) simp
qed

lemma validate_indexes_total:
  assumes "read_only E"
  shows "(\<forall>r \<in> set rs. \<exists>es. fst (validate_indexes E [r] [] db) = Inr es) \<Longrightarrow>
     \<exists>errs. validate_indexes E rs acc db = (Inr errs, db)"
proof (induction rs arbitrary: acc)
  case Nil
  then show ?case by simp
next
  case (Cons r rs)
  from Cons.prems obtain es where es: "fst (validate_indexes E [r] [] db) = Inr es"
    by auto
  from Cons.IH [of "acc @ es"] Cons.prems es show ?case
    by (subst validate_indexes_cons [OF assms]) simp
qed

lemma validate_total:
  assumes ro: "read_only E"
    and t: "\<forall>r \<in> set (tableRequirements v). \<exists>es. fst (validate_tables E [r] [] db) = Inr es"
    and c: "\<forall>r \<in> set (columnRequirements v). \<exists>es. fst (validate_columns E [r] [] db) = Inr es"
    and i: "\<forall>r \<in> set (indexRequirements v). \<exists>es. fst (validate_indexes E [r] [] db) = Inr es"
  shows "\<exists>errs. validate E v db = (Inr errs, db)"
proof -
  from validate_tables_total [OF ro, of "tableRequirements v" db "[]"] t
  obtain e1 where 1: "validate_tables E (tableRequirements v) [] db = (Inr e1, db)"
    by (auto simp del: validate_tables.simps validate_columns.simps validate_indexes.simps)
  from validate_columns_total [OF ro, of "columnRequirements v" db e1] c
  obtain e2 where 2: "validate_columns E (columnRequirements v) e1 db = (Inr e2, db)"
    by (auto simp del: validate_tables.simps validate_columns.simps validate_indexes.simps)
  from validate_indexes_total [OF ro, of "indexRequirements v" db e2] i
  obtain e3 where 3: "validate_indexes E (indexRequirements v) e2 db = (Inr e3, db)"
    by (auto simp del: validate_tables.simps validate_columns.simps validate_indexes.simps)
  from 1 2 3 show ?thesis
    by (simp add: validate_def)
qed

lemma users_catalog_read_only: "read_only (catalog_engine users_catalog)"
  by (simp add: read_only_def catalog_engine_def)

subsection \<open>One requirement against the catalog\<close>

lemma table_single_errors:
  "table_answered E db req \<Longrightarrow>
     fst (validate_tables E [req] [] db) = Inr (table_errors E db req)"
  by (auto simp: Statement_ctor_def Statement_bind_def checkResult_def Statement_step_def
      step_handle_def table_answered_def table_errors_def table_answer_def query_answer_def
      table_query_def Let_def SQLITE_OK_def SQLITE_ROW_def SQLITE_DONE_def
      split: prod.splits list.splits)

lemma table_single_answered:
  "fst (validate_tables E [req] [] db) = Inr es \<Longrightarrow> table_answered E db req"
  by (auto simp: Statement_ctor_def Statement_bind_def checkResult_def Statement_step_def
      step_handle_def table_answered_def table_answer_def query_answer_def
      table_query_def Let_def final_code_def SQLITE_OK_def SQLITE_ROW_def SQLITE_DONE_def
      split: prod.splits list.splits if_splits)

lemma index_single_errors:
  "index_answered E db req \<Longrightarrow>
     fst (validate_indexes E [req] [] db) = Inr (index_errors E db req)"
  by (auto simp: Statement_ctor_def Statement_bind_def checkResult_def Statement_step_def
      step_handle_def index_answered_def index_errors_def index_answer_def query_answer_def
      index_query_def Let_def SQLITE_OK_def SQLITE_ROW_def SQLITE_DONE_def
      split: prod.splits list.splits)

lemma index_single_answered:
  "fst (validate_indexes E [req] [] db) = Inr es \<Longrightarrow> index_answered E db req"
  by (auto simp: Statement_ctor_def Statement_bind_def checkResult_def Statement_step_def
      step_handle_def index_answered_def index_answer_def query_answer_def
      index_query_def Let_def final_code_def SQLITE_OK_def SQLITE_ROW_def SQLITE_DONE_def
      split: prod.splits list.splits if_splits)

text \<open>\<open>std::string::find\<close> returns \<open>npos\<close> exactly when the text does not contain the part.\<close>

lemma contains_Cons:
  "contains (c # cs) part = (take (length part) (c # cs) = part \<or> contains cs part)"
proof
  assume "contains (c # cs) part"
  then obtain before after where e: "c # cs = before @ part @ after"
    by (auto simp: contains_def)
  show "take (length part) (c # cs) = part \<or> contains cs part"
  proof (cases before)
    case Nil
    with e show ?thesis by simp
  next
    case (Cons b bs)
    with e have "cs = bs @ part @ after" by simp
    then show ?thesis by (auto simp: contains_def)
  qed
next
  assume "take (length part) (c # cs) = part \<or> contains cs part"
  then show "contains (c # cs) part"
  proof
    assume "take (length part) (c # cs) = part"
    then have "c # cs = [] @ part @ drop (length part) (c # cs)"
      by (metis append_Nil append_take_drop_id)
    then show ?thesis unfolding contains_def by blast
  next
    assume "contains cs part"
    then obtain before after where "cs = before @ part @ after"
      by (auto simp: contains_def)
    then have "c # cs = (c # before) @ part @ after" by simp
    then show ?thesis unfolding contains_def by blast
  qed
qed

lemma string_find_None: "(string_find whole part = None) = (\<not> contains whole part)"
proof (induction whole)
  case Nil
  show ?case by (auto simp: contains_def)
next
  case (Cons c cs)
  then show ?case by (simp add: contains_Cons)
qed

lemma check_found_column_declared:
  "check_found_column E req stmt [] = declared_errors E req (current_row stmt)"
  by (simp add: check_found_column_def declared_errors_def Let_def columnString_def
      columnInt_def column_def string_find_None)

lemma table_info_loop_rows:
  "cursor stmt = Some (rows, final) \<Longrightarrow>
   fst (table_info_loop E req stmt [] db) =
     (case find (\<lambda>row. sqlite3_column_text E (cell row 1) = col_columnName req) rows of
        Some row \<Rightarrow> Inr (True, declared_errors E req row)
      | None \<Rightarrow>
          if final_code final = SQLITE_DONE then Inr (False, [])
          else Inl (QueryException (sqlite3_errmsg E db) (stmt_sql stmt) (final_code final)))"
proof (induction rows arbitrary: stmt)
  case Nil
  then show ?case
    by (subst table_info_loop.simps)
       (simp add: Statement_step_def step_handle_def final_code_def SQLITE_ROW_def SQLITE_DONE_def)
next
  case (Cons r rs)
  let ?stmt' = "stmt\<lparr>cursor := Some (rs, final), current_row := r\<rparr>"
  have step: "Statement_step E stmt db = (Inr True, ?stmt', db)"
    using Cons.prems by (simp add: Statement_step_def step_handle_def)
  have next_round: "cursor ?stmt' = Some (rs, final)" by simp
  show ?case
    apply (subst table_info_loop.simps)
    using step Cons.IH [OF next_round] check_found_column_declared [of E req ?stmt']
    apply (simp add: Let_def columnString_def column_def split: option.splits)
    done
qed

lemma table_info_loop_fresh:
  assumes ro: "read_only E" and fresh: "cursor stmt = None"
    and answer: "query_answer E (stmt_sql stmt) (bindings stmt) db = (rows, final)"
  shows "fst (table_info_loop E req stmt [] db) =
     (case find (\<lambda>row. sqlite3_column_text E (cell row 1) = col_columnName req) rows of
        Some row \<Rightarrow> Inr (True, declared_errors E req row)
      | None \<Rightarrow>
          if final_code final = SQLITE_DONE then Inr (False, [])
          else Inl (QueryException (sqlite3_errmsg E db) (stmt_sql stmt) (final_code final)))"
proof -
  from ro have "snd (sqlite3_step E (stmt_sql stmt) (bindings stmt) db) = db"
    by (simp add: read_only_def)
  with answer have s: "sqlite3_step E (stmt_sql stmt) (bindings stmt) db = ((rows, final), db)"
    by (simp add: query_answer_def prod_eq_iff)
  show ?thesis
  proof (cases rows)
    case Nil
    with s fresh show ?thesis
      by (subst table_info_loop.simps)
         (simp add: Statement_step_def step_handle_def final_code_def SQLITE_ROW_def
            SQLITE_DONE_def)
  next
    case (Cons r rs)
    let ?stmt' = "stmt\<lparr>cursor := Some (rs, final), current_row := r\<rparr>"
    have step: "Statement_step E stmt db = (Inr True, ?stmt', db)"
      using s fresh Cons by (simp add: Statement_step_def step_handle_def)
    have next_round: "cursor ?stmt' = Some (rs, final)" by simp
    show ?thesis
      apply (subst table_info_loop.simps)
      using step Cons table_info_loop_rows [OF next_round, of E req db]
        check_found_column_declared [of E req ?stmt']
      apply (simp add: Let_def columnString_def column_def split: option.splits)
      done
  qed
qed

lemma column_single:
  assumes ro: "read_only E"
  shows "fst (validate_columns E [req] [] db) =
     (if sqlite3_prepare_v2 E (table_info_query (col_tableName req)) db \<noteq> SQLITE_OK
      then Inl (QueryException (sqlite3_errmsg E db) (table_info_query (col_tableName req))
                  (sqlite3_prepare_v2 E (table_info_query (col_tableName req)) db))
      else case declared_column E db req of
             Some row \<Rightarrow> Inr (declared_errors E req row)
           | None \<Rightarrow>
               if final_code (snd (column_answer E db req)) = SQLITE_DONE
               then Inr [missing_column req]
               else Inl (QueryException (sqlite3_errmsg E db)
                           (table_info_query (col_tableName req))
                           (final_code (snd (column_answer E db req)))))"
proof (cases "sqlite3_prepare_v2 E (table_info_query (col_tableName req)) db = SQLITE_OK")
  case False
  then show ?thesis
    by (simp add: Statement_ctor_def table_info_query_def Let_def)
next
  case True
  let ?stmt = "\<lparr>stmt_sql = table_info_query (col_tableName req), bindings = (\<lambda>i. NullValue),
                 cursor = None, current_row = []\<rparr>"
  have ctor: "Statement_ctor E (''PRAGMA table_info('' @ col_tableName req @ '')'') db = Inr ?stmt"
    using True by (simp add: Statement_ctor_def table_info_query_def Let_def)
  obtain rows final where a: "column_answer E db req = (rows, final)"
    by (cases "column_answer E db req")
  then have a': "query_answer E (stmt_sql ?stmt) (bindings ?stmt) db = (rows, final)"
    by (simp add: column_answer_def)
  have fresh: "cursor ?stmt = None" by simp
  note L = table_info_loop_fresh [OF ro fresh a', of req]
  obtain res d where l: "table_info_loop E req ?stmt [] db = (res, d)"
    by (cases "table_info_loop E req ?stmt [] db")
  from L l have res: "res =
     (case find (\<lambda>row. sqlite3_column_text E (cell row 1) = col_columnName req) rows of
        Some row \<Rightarrow> Inr (True, declared_errors E req row)
      | None \<Rightarrow>
          if final_code final = SQLITE_DONE then Inr (False, [])
          else Inl (QueryException (sqlite3_errmsg E db) (table_info_query (col_tableName req))
                      (final_code final)))"
    by (simp split: option.splits)
  show ?thesis
    using True ctor l res a
    by (simp add: declared_column_def split: option.splits)
qed

lemma column_single_errors:
  "read_only E \<Longrightarrow> column_answered E db req \<Longrightarrow>
     fst (validate_columns E [req] [] db) = Inr (column_errors E db req)"
  using column_single [of E req db]
  by (auto simp del: validate_columns.simps simp: column_answered_def column_errors_def
      split: option.splits if_splits)

lemma column_single_answered:
  "read_only E \<Longrightarrow> fst (validate_columns E [req] [] db) = Inr es \<Longrightarrow> column_answered E db req"
  using column_single [of E req db]
  by (auto simp del: validate_columns.simps simp: column_answered_def
      split: option.splits if_splits)

lemma table_errors_kinds: "map err_type (table_errors E db req) \<in> set table_kinds"
  by (simp add: table_errors_def table_kinds_def missing_table_def)

lemma index_errors_kinds: "map err_type (index_errors E db req) \<in> set index_kinds"
  by (simp add: index_errors_def index_kinds_def missing_index_def)

lemma column_errors_kinds: "map err_type (column_errors E db req) \<in> set column_kinds"
  by (simp add: column_errors_def declared_errors_def column_kinds_def missing_column_def
      wrong_type_def nullable_def split: option.splits)

lemma validate_answered:
  assumes ro: "read_only E" and all: "all_answered E v db"
  shows "validate E v db = (Inr (expected_errors E v db), db)"
proof -
  from all have t: "\<forall>r \<in> set (tableRequirements v).
        fst (validate_tables E [r] [] db) = Inr (table_errors E db r)"
    and c: "\<forall>r \<in> set (columnRequirements v).
        fst (validate_columns E [r] [] db) = Inr (column_errors E db r)"
    and i: "\<forall>r \<in> set (indexRequirements v).
        fst (validate_indexes E [r] [] db) = Inr (index_errors E db r)"
    using table_single_errors [of E db] column_single_errors [OF ro, of db]
      index_single_errors [of E db]
    by (simp_all add: all_answered_def del: validate_tables.simps validate_columns.simps
        validate_indexes.simps)
  from validate_total [OF ro, of v db] t c i
  obtain errs where ok: "validate E v db = (Inr errs, db)"
    by (auto simp del: validate_tables.simps validate_columns.simps validate_indexes.simps)
  have mt: "map (\<lambda>r. errors_of (validate_tables E [r] [] db)) (tableRequirements v)
            = map (table_errors E db) (tableRequirements v)"
    using t
    by (simp add: errors_of_def del: validate_tables.simps)
  have mc: "map (\<lambda>r. errors_of (validate_columns E [r] [] db)) (columnRequirements v)
            = map (column_errors E db) (columnRequirements v)"
    using c
    by (simp add: errors_of_def del: validate_columns.simps)
  have mi: "map (\<lambda>r. errors_of (validate_indexes E [r] [] db)) (indexRequirements v)
            = map (index_errors E db) (indexRequirements v)"
    using i
    by (simp add: errors_of_def del: validate_indexes.simps)
  from validate_decomposes [OF ro ok] have "errs = expected_errors E v db"
    by (simp add: expected_errors_def mt mc mi
        del: validate_tables.simps validate_columns.simps validate_indexes.simps)
  with ok show ?thesis by simp
qed

lemma validate_returns_answered:
  assumes ro: "read_only E" and ok: "validate E v db = (Inr errs, db')"
  shows "all_answered E v db"
  using validate_decomposes [OF ro ok] table_single_answered [of E _ db]
    column_single_answered [OF ro, of _ db] index_single_answered [of E _ db]
  by (auto simp: all_answered_def
      simp del: validate_tables.simps validate_columns.simps validate_indexes.simps)

text \<open>
  Claim C8. On an engine whose catalog queries only read, \<open>validate\<close> returns exactly when
  the engine answers the query of every requirement, and then it has checked every
  requirement against the catalog, a failed one stopping nothing: its error list is the
  concatenation, over all table requirements, then all column requirements, then all
  index requirements, each group in the order \<open>requireTable\<close>, \<open>requireColumn\<close> and
  \<open>requireIndex\<close> appended them, of the errors of each requirement. A table that is not
  in the catalog gives \<open>missing_table\<close>; a column that is not in the table's column
  catalog gives \<open>missing_column\<close>, one that is there gives \<open>wrong_type\<close> if a type is
  expected and, case ignored, is not part of the declared type, and then \<open>nullable\<close>
  if NOT NULL is required and the catalog's flag is 0; an index that is not in the
  catalog gives \<open>missing_index\<close>. The list is empty exactly when no requirement has an
  error, and the connection state is as before.
\<close>

theorem validate_checks_everything_in_order:
  assumes ro: "read_only E"
  shows "((\<exists>errs db'. validate E v db = (Inr errs, db')) = all_answered E v db)
       \<and> (all_answered E v db \<longrightarrow>
            validate E v db
              = (Inr (concat (map (table_errors E db) (tableRequirements v))
                      @ concat (map (column_errors E db) (columnRequirements v))
                      @ concat (map (index_errors E db) (indexRequirements v))), db))
       \<and> (validate E v db = (Inr errs, db') \<longrightarrow>
            db' = db
          \<and> errs = expected_errors E v db
          \<and> (errs = [] \<longleftrightarrow>
                (\<forall>req \<in> set (tableRequirements v). table_errors E db req = [])
              \<and> (\<forall>req \<in> set (columnRequirements v). column_errors E db req = [])
              \<and> (\<forall>req \<in> set (indexRequirements v). index_errors E db req = [])))
       \<and> map err_type (table_errors E db table) \<in> set table_kinds
       \<and> map err_type (column_errors E db col) \<in> set column_kinds
       \<and> map err_type (index_errors E db idx) \<in> set index_kinds
       \<and> tableRequirements (requireTable name v) = tableRequirements v @ [name]
       \<and> columnRequirements (requireColumn t c ty v)
           = columnRequirements v @
             [\<lparr>col_tableName = t, col_columnName = c, col_expectedType = ty,
               col_requireNotNull = False\<rparr>]
       \<and> indexRequirements (requireIndex t i v)
           = indexRequirements v @ [\<lparr>idx_tableName = t, idx_indexName = i\<rparr>]"
proof -
  have 1: "(\<exists>errs db'. validate E v db = (Inr errs, db')) = all_answered E v db"
    using validate_answered [OF ro, of v db] validate_returns_answered [OF ro, of v db]
    by blast
  have 2: "all_answered E v db \<longrightarrow>
            validate E v db
              = (Inr (concat (map (table_errors E db) (tableRequirements v))
                      @ concat (map (column_errors E db) (columnRequirements v))
                      @ concat (map (index_errors E db) (indexRequirements v))), db)"
    using validate_answered [OF ro, of v db] by (simp add: expected_errors_def)
  have 3: "validate E v db = (Inr errs, db') \<longrightarrow>
            db' = db
          \<and> errs = expected_errors E v db
          \<and> (errs = [] \<longleftrightarrow>
                (\<forall>req \<in> set (tableRequirements v). table_errors E db req = [])
              \<and> (\<forall>req \<in> set (columnRequirements v). column_errors E db req = [])
              \<and> (\<forall>req \<in> set (indexRequirements v). index_errors E db req = []))"
  proof
    assume ok: "validate E v db = (Inr errs, db')"
    from validate_answered [OF ro validate_returns_answered [OF ro ok]] ok
    have e: "errs = expected_errors E v db" and d: "db' = db"
      by simp_all
    have "(expected_errors E v db = []) =
                ((\<forall>req \<in> set (tableRequirements v). table_errors E db req = [])
              \<and> (\<forall>req \<in> set (columnRequirements v). column_errors E db req = [])
              \<and> (\<forall>req \<in> set (indexRequirements v). index_errors E db req = []))"
      by (auto simp: expected_errors_def)
    with e d show "db' = db
          \<and> errs = expected_errors E v db
          \<and> (errs = [] \<longleftrightarrow>
                (\<forall>req \<in> set (tableRequirements v). table_errors E db req = [])
              \<and> (\<forall>req \<in> set (columnRequirements v). column_errors E db req = [])
              \<and> (\<forall>req \<in> set (indexRequirements v). index_errors E db req = []))"
      by simp
  qed
  have 4: "tableRequirements (requireTable name v) = tableRequirements v @ [name]"
    by (simp add: requireTable_def)
  have 5: "columnRequirements (requireColumn t c ty v)
           = columnRequirements v @
             [\<lparr>col_tableName = t, col_columnName = c, col_expectedType = ty,
               col_requireNotNull = False\<rparr>]"
    by (simp add: requireColumn_def)
  have 6: "indexRequirements (requireIndex t i v)
           = indexRequirements v @ [\<lparr>idx_tableName = t, idx_indexName = i\<rparr>]"
    by (simp add: requireIndex_def)
  show ?thesis
    using 1 2 3 4 5 6 table_errors_kinds [of E db table] column_errors_kinds [of E db col]
      index_errors_kinds [of E db idx]
    by blast
qed

text \<open>
  A run on the catalog with the table \<open>users (id INTEGER PRIMARY KEY, email varchar(40))\<close>
  and the index \<open>idx_users_email\<close>: table \<open>posts\<close> is missing, \<open>users.email\<close> has
  another type than \<open>TEXT\<close> and may be null, \<open>users.name\<close> and the index \<open>idx_missing\<close> are
  missing; the five errors come in the order tables, columns, indexes.
\<close>

theorem validate_checks_everything_in_order_witness:
  "read_only (catalog_engine users_catalog :: unit engine)
   \<and> all_answered (catalog_engine users_catalog)
       (requireIndex ''users'' ''idx_missing'' (requireIndex ''users'' ''idx_users_email''
         (requireColumn ''users'' ''name'' ''TEXT'' (requireNotNull ''users'' ''email''
           (requireColumn ''users'' ''email'' ''TEXT'' (requireColumn ''users'' ''id'' ''INTEGER''
             (requireTable ''posts'' (requireTable ''users'' SchemaValidator_ctor)))))))) ()
   \<and> validate (catalog_engine users_catalog)
       (requireIndex ''users'' ''idx_missing'' (requireIndex ''users'' ''idx_users_email''
         (requireColumn ''users'' ''name'' ''TEXT'' (requireNotNull ''users'' ''email''
           (requireColumn ''users'' ''email'' ''TEXT'' (requireColumn ''users'' ''id'' ''INTEGER''
             (requireTable ''posts'' (requireTable ''users'' SchemaValidator_ctor)))))))) ()
     = (Inr [missing_table ''posts'',
             wrong_type \<lparr>col_tableName = ''users'', col_columnName = ''email'',
                col_expectedType = ''TEXT'', col_requireNotNull = True\<rparr> ''varchar(40)'',
             nullable \<lparr>col_tableName = ''users'', col_columnName = ''email'',
                col_expectedType = ''TEXT'', col_requireNotNull = True\<rparr>,
             missing_column \<lparr>col_tableName = ''users'', col_columnName = ''name'',
                col_expectedType = ''TEXT'', col_requireNotNull = False\<rparr>,
             missing_index \<lparr>idx_tableName = ''users'', idx_indexName = ''idx_missing''\<rparr>], ())
   \<and> expected_errors (catalog_engine users_catalog)
       (requireIndex ''users'' ''idx_missing'' (requireIndex ''users'' ''idx_users_email''
         (requireColumn ''users'' ''name'' ''TEXT'' (requireNotNull ''users'' ''email''
           (requireColumn ''users'' ''email'' ''TEXT'' (requireColumn ''users'' ''id'' ''INTEGER''
             (requireTable ''posts'' (requireTable ''users'' SchemaValidator_ctor)))))))) ()
     = [missing_table ''posts'',
             wrong_type \<lparr>col_tableName = ''users'', col_columnName = ''email'',
                col_expectedType = ''TEXT'', col_requireNotNull = True\<rparr> ''varchar(40)'',
             nullable \<lparr>col_tableName = ''users'', col_columnName = ''email'',
                col_expectedType = ''TEXT'', col_requireNotNull = True\<rparr>,
             missing_column \<lparr>col_tableName = ''users'', col_columnName = ''name'',
                col_expectedType = ''TEXT'', col_requireNotNull = False\<rparr>,
             missing_index \<lparr>idx_tableName = ''users'', idx_indexName = ''idx_missing''\<rparr>]"
proof -
  let ?E = "catalog_engine users_catalog :: unit engine"
  let ?v = "requireIndex ''users'' ''idx_missing'' (requireIndex ''users'' ''idx_users_email''
         (requireColumn ''users'' ''name'' ''TEXT'' (requireNotNull ''users'' ''email''
           (requireColumn ''users'' ''email'' ''TEXT'' (requireColumn ''users'' ''id'' ''INTEGER''
             (requireTable ''posts'' (requireTable ''users'' SchemaValidator_ctor)))))))"
  let ?errs = "[missing_table ''posts'',
             wrong_type \<lparr>col_tableName = ''users'', col_columnName = ''email'',
                col_expectedType = ''TEXT'', col_requireNotNull = True\<rparr> ''varchar(40)'',
             nullable \<lparr>col_tableName = ''users'', col_columnName = ''email'',
                col_expectedType = ''TEXT'', col_requireNotNull = True\<rparr>,
             missing_column \<lparr>col_tableName = ''users'', col_columnName = ''name'',
                col_expectedType = ''TEXT'', col_requireNotNull = False\<rparr>,
             missing_index \<lparr>idx_tableName = ''users'', idx_indexName = ''idx_missing''\<rparr>]"
  have ro: "read_only ?E"
    by (rule users_catalog_read_only)
  have run: "validate ?E ?v () = (Inr ?errs, ())"
    by code_simp
  note T = validate_checks_everything_in_order [OF ro, of ?v "()" ?errs "()"]
  from T run have ans: "all_answered ?E ?v ()"
    by blast
  from T run have exp: "expected_errors ?E ?v () = ?errs"
    by simp
  show ?thesis
    using ro ans run exp by blast
qed
section \<open>The transactional engine\<close>

lemma create_ne [simp]:
  "create_migrations_table \<noteq> ''COMMIT''" "create_migrations_table \<noteq> ''ROLLBACK''"
  "create_migrations_table \<noteq> ''BEGIN DEFERRED TRANSACTION''"
  "create_migrations_table \<noteq> ''BEGIN IMMEDIATE TRANSACTION''"
  "create_migrations_table \<noteq> ''BEGIN EXCLUSIVE TRANSACTION''"
  "''COMMIT'' \<noteq> create_migrations_table" "''ROLLBACK'' \<noteq> create_migrations_table"
  "''BEGIN DEFERRED TRANSACTION'' \<noteq> create_migrations_table"
  "''BEGIN IMMEDIATE TRANSACTION'' \<noteq> create_migrations_table"
  "''BEGIN EXCLUSIVE TRANSACTION'' \<noteq> create_migrations_table"
  by (simp_all add: create_migrations_table_def)

lemma sql_ne [simp]:
  "select_max_sql \<noteq> insert_sql" "select_max_sql \<noteq> delete_sql" "insert_sql \<noteq> delete_sql"
  "insert_sql \<noteq> select_max_sql" "delete_sql \<noteq> select_max_sql" "delete_sql \<noteq> insert_sql"
  by (simp_all add: select_max_sql_def insert_sql_def delete_sql_def)

lemma model_engine_sel [simp]:
  "sqlite3_exec (model_engine F) = model_exec F"
  "sqlite3_prepare_v2 (model_engine F) = model_prepare"
  "sqlite3_bind (model_engine F) = model_bind"
  "sqlite3_step (model_engine F) = model_step F"
  "sqlite3_column_int (model_engine F) = model_column_int"
  "sqlite3_column_text (model_engine F) = model_column_text"
  by (simp_all add: model_engine_def)

lemma model_exec_failure_keeps_state:
  "fst (fst (model_exec F sql db)) \<noteq> SQLITE_OK \<Longrightarrow> snd (model_exec F sql db) = db"
  by (auto simp: model_exec_def SQLITE_OK_def SQLITE_ERROR_def split: if_splits option.splits)

lemma model_begin_ok:
  "fst (fst (model_exec F (begin_sql ty) db)) = SQLITE_OK \<longleftrightarrow>
     exec_fault F (begin_sql ty) = 0 \<and> journal db = None"
  by (cases ty) (auto simp: model_exec_def SQLITE_OK_def SQLITE_ERROR_def split: option.splits)

lemma model_begin_state:
  "fst (fst (model_exec F (begin_sql ty) db)) = SQLITE_OK \<Longrightarrow>
     snd (model_exec F (begin_sql ty) db) = db\<lparr>journal := Some (live db)\<rparr>"
  by (cases ty) (auto simp: model_exec_def SQLITE_OK_def SQLITE_ERROR_def split: option.splits if_splits)

lemma model_commit_ok:
  "fst (fst (model_exec F ''COMMIT'' db)) = SQLITE_OK \<longleftrightarrow>
     exec_fault F ''COMMIT'' = 0 \<and> journal db \<noteq> None"
  by (auto simp: model_exec_def SQLITE_OK_def SQLITE_ERROR_def split: option.splits)

lemma model_commit_state:
  "fst (fst (model_exec F ''COMMIT'' db)) = SQLITE_OK \<Longrightarrow>
     snd (model_exec F ''COMMIT'' db) = db\<lparr>journal := None\<rparr>"
  by (auto simp: model_exec_def SQLITE_OK_def SQLITE_ERROR_def split: option.splits if_splits)

lemma model_rollback_state:
  "snd (model_exec F ''ROLLBACK'' db) =
     (if exec_fault F ''ROLLBACK'' \<noteq> 0 then db
      else case journal db of None \<Rightarrow> db | Some j \<Rightarrow> \<lparr>live = j, journal = None\<rparr>)"
  by (auto simp: model_exec_def split: option.splits)

lemma model_create_ok:
  "fst (fst (model_exec F create_migrations_table db)) = SQLITE_OK \<longleftrightarrow>
     exec_fault F create_migrations_table = 0"
  by (auto simp: model_exec_def SQLITE_OK_def)

lemma model_create_state:
  "fst (fst (model_exec F create_migrations_table db)) = SQLITE_OK \<Longrightarrow>
     snd (model_exec F create_migrations_table db) =
       (case migrations_table (live db) of
          None \<Rightarrow> db\<lparr>live := (live db)\<lparr>migrations_table := Some []\<rparr>\<rparr>
        | Some rows \<Rightarrow> db)"
  by (auto simp: model_exec_def SQLITE_OK_def split: if_splits)

lemma model_Transaction_ctor_Inr:
  "Transaction_ctor (model_engine F) ty db = (Inr txn, db') \<longleftrightarrow>
     exec_fault F (begin_sql ty) = 0 \<and> journal db = None
     \<and> txn = \<lparr>txn_conn = True, txn_active = True\<rparr>
     \<and> db' = db\<lparr>journal := Some (live db)\<rparr>"
proof (cases "Connection_execute (model_engine F) (begin_sql ty) db")
  case (Pair r d)
  show ?thesis
  proof (cases r)
    case (Inl e)
    with Pair Connection_execute_Inl [of "model_engine F" "begin_sql ty" db e d]
    show ?thesis
      by (auto simp: Transaction_ctor_def model_begin_ok)
  next
    case (Inr u)
    with Pair Connection_execute_Inr [of "model_engine F" "begin_sql ty" db u d]
    show ?thesis
      by (auto simp: Transaction_ctor_def model_begin_ok model_begin_state)
  qed
qed

lemma model_Transaction_ctor_Inl:
  "Transaction_ctor (model_engine F) ty db = (Inl e, db') \<Longrightarrow> db' = db"
  by (auto simp: Transaction_ctor_def model_exec_failure_keeps_state
      split: prod.splits sum.splits dest!: Connection_execute_Inl)

lemma model_Transaction_commit_Inr:
  "txn_active txn \<Longrightarrow>
   Transaction_commit (model_engine F) txn db = (Inr u, txn', db') \<longleftrightarrow>
     exec_fault F ''COMMIT'' = 0 \<and> journal db \<noteq> None
     \<and> txn' = txn\<lparr>txn_active := False\<rparr> \<and> db' = db\<lparr>journal := None\<rparr>"
proof (cases "Connection_execute (model_engine F) ''COMMIT'' db")
  case (Pair r d)
  assume a: "txn_active txn"
  show ?thesis
  proof (cases r)
    case (Inl e)
    with a Pair Connection_execute_Inl [of "model_engine F" "''COMMIT''" db e d]
    show ?thesis
      by (auto simp: Transaction_commit_def model_commit_ok)
  next
    case (Inr u)
    with a Pair Connection_execute_Inr [of "model_engine F" "''COMMIT''" db u d]
    show ?thesis
      by (auto simp: Transaction_commit_def model_commit_ok model_commit_state)
  qed
qed

lemma model_Transaction_commit_Inl:
  "Transaction_commit (model_engine F) txn db = (Inl e, txn', db') \<Longrightarrow> db' = db \<and> txn' = txn"
  by (auto simp: Transaction_commit_def model_exec_failure_keeps_state
      split: prod.splits sum.splits if_splits dest!: Connection_execute_Inl)

lemma model_Transaction_dtor:
  "snd (Transaction_dtor (model_engine F) txn db) =
     (if txn_active txn \<and> txn_conn txn \<and> exec_fault F ''ROLLBACK'' = 0
      then (case journal db of None \<Rightarrow> db | Some j \<Rightarrow> \<lparr>live = j, journal = None\<rparr>)
      else db)"
proof -
  have "snd (Connection_execute (model_engine F) ''ROLLBACK'' db) = snd (model_exec F ''ROLLBACK'' db)"
    by (auto simp: Connection_execute_def Let_def split: prod.splits)
  then show ?thesis
    by (auto simp: Transaction_dtor_def model_rollback_state split: prod.splits sum.splits)
qed

lemma with_table_simps [simp]:
  "records (with_table db) = records db"
  "journal (with_table db) = journal db"
  "user_data (live (with_table db)) = user_data (live db)"
  "migrations_table (live (with_table db)) = Some (records db)"
  "with_table (with_table db) = with_table db"
  by (auto simp: with_table_def records_def split: option.splits)

lemma model_ensureMigrationTable:
  "ensureMigrationTable (model_engine F) db = (r, db') \<Longrightarrow>
     (case r of Inr u \<Rightarrow> exec_fault F create_migrations_table = 0 \<and> db' = with_table db
              | Inl e \<Rightarrow> exec_fault F create_migrations_table \<noteq> 0 \<and> db' = db)"
  by (cases r)
     (auto simp: ensureMigrationTable_def Connection_execute_Inr model_create_ok model_create_state
        with_table_def model_exec_failure_keeps_state dest!: Connection_execute_Inl)

lemma model_ensureMigrationTable_ok:
  "exec_fault F create_migrations_table = 0 \<Longrightarrow>
     ensureMigrationTable (model_engine F) db = (Inr (), with_table db)"
  by (simp add: ensureMigrationTable_def Connection_execute_Inr model_create_ok model_create_state
        with_table_def)

lemma model_Statement_ctor:
  "sql = select_max_sql \<or> sql = insert_sql \<or> sql = delete_sql \<Longrightarrow>
   Statement_ctor (model_engine F) sql db =
     (if migrations_table (live db) = None
      then Inl (QueryException ''engine error'' sql SQLITE_ERROR)
      else Inr (compiled sql (\<lambda>i. NullValue)))"
  by (auto simp: Statement_ctor_def model_prepare_def compiled_def model_engine_def
      SQLITE_OK_def SQLITE_ERROR_def)

lemma model_Statement_bind:
  "(sql = insert_sql \<and> (i = 1 \<or> i = 2)) \<or> (sql = delete_sql \<and> i = 1) \<Longrightarrow>
   Statement_bind (model_engine F) i v (compiled sql b) db = Inr (compiled sql (b(i := v)))"
  by (auto simp: Statement_bind_def checkResult_def model_bind_def compiled_def SQLITE_OK_def)

lemma model_Statement_execute_no_rows:
  assumes "model_step F sql b db = (([], code), db1)"
  shows "Statement_execute (model_engine F) (compiled sql b) db = (r, stmt', db') \<Longrightarrow>
     db' = db1 \<and> (case r of Inr u \<Rightarrow> code = SQLITE_DONE \<or> code = SQLITE_ROW
                           | Inl e \<Rightarrow> code \<noteq> SQLITE_DONE \<and> code \<noteq> SQLITE_ROW)"
  using assms
  by (cases r)
     (auto simp: Statement_execute_def step_handle_def compiled_def final_code_def
       split: if_splits)

lemma model_step_insert:
  "model_step F insert_sql (insert_bindings v d) db =
     (if planned_error (step_fault F insert_sql (insert_bindings v d))
      then (([], step_fault F insert_sql (insert_bindings v d)), db)
      else case migrations_table (live db) of
        None \<Rightarrow> (([], SQLITE_ERROR), db)
      | Some rows \<Rightarrow>
          if v \<in> set (map fst rows) then (([], SQLITE_CONSTRAINT_PRIMARYKEY), db)
          else (([], SQLITE_DONE),
                db\<lparr>live := (live db)\<lparr>migrations_table := Some (rows @ [(v, d)])\<rparr>\<rparr>))"
  by (simp add: model_step_def insert_bindings_def split: option.splits)


lemma model_recordMigration:
  assumes "recordMigration (model_engine F) M v db = (r, db')"
  shows "case r of
        Inr u \<Rightarrow> (\<exists>m rows. at M v = Inr m \<and> migrations_table (live db) = Some rows
                   \<and> v \<notin> set (map fst rows)
                   \<and> \<not> planned_error (step_fault F insert_sql (insert_bindings v (description m)))
                   \<and> db' = db\<lparr>live := (live db)\<lparr>migrations_table :=
                                 Some (rows @ [(v, description m)])\<rparr>\<rparr>)
      | Inl e \<Rightarrow> db' = db"
proof (cases "at M v")
  case (Inl e)
  with assms show ?thesis by (auto simp: recordMigration_def)
next
  case (Inr m)
  show ?thesis
  proof (cases "migrations_table (live db)")
    case None
    with assms Inr show ?thesis
      by (auto simp: recordMigration_def insert_sql_def [symmetric] model_Statement_ctor)
  next
    case (Some rows)
    obtain code db1 where st:
      "model_step F insert_sql (insert_bindings v (description m)) db = (([], code), db1)"
      by (cases "model_step F insert_sql (insert_bindings v (description m)) db")
         (auto simp: model_step_insert Some split: if_splits)
    obtain r2 stmt2 db2 where ex:
      "Statement_execute (model_engine F) (compiled insert_sql (insert_bindings v (description m))) db
         = (r2, stmt2, db2)"
      by (cases "Statement_execute (model_engine F)
            (compiled insert_sql (insert_bindings v (description m))) db")
    from assms Inr Some ex have r: "r = r2" and d: "db' = db2"
      by (auto simp: recordMigration_def insert_sql_def [symmetric] model_Statement_ctor
          model_Statement_bind insert_bindings_def)
    note x = model_Statement_execute_no_rows [OF st ex]
    from st have cases:
      "(planned_error (step_fault F insert_sql (insert_bindings v (description m)))
          \<and> code = step_fault F insert_sql (insert_bindings v (description m)) \<and> db1 = db)
       \<or> (\<not> planned_error (step_fault F insert_sql (insert_bindings v (description m)))
          \<and> v \<in> set (map fst rows) \<and> code = SQLITE_CONSTRAINT_PRIMARYKEY \<and> db1 = db)
       \<or> (\<not> planned_error (step_fault F insert_sql (insert_bindings v (description m)))
          \<and> v \<notin> set (map fst rows) \<and> code = SQLITE_DONE
          \<and> db1 = db\<lparr>live := (live db)\<lparr>migrations_table := Some (rows @ [(v, description m)])\<rparr>\<rparr>)"
      by (auto simp: model_step_insert Some split: if_splits)
    show ?thesis
      using x cases r d Inr Some
      by (cases r2)
         (auto simp: planned_error_def SQLITE_CONSTRAINT_PRIMARYKEY_def SQLITE_DONE_def SQLITE_ROW_def)
  qed
qed


lemma model_step_select_max:
  "migrations_table (live db) = Some rows \<Longrightarrow>
   model_step F select_max_sql b db =
     (if planned_error (step_fault F select_max_sql b)
      then (([], step_fault F select_max_sql b), db)
      else (([[if rows = [] then NullValue else Int64 (Max (set (map fst rows)))]], SQLITE_DONE), db))"
  by (simp add: model_step_def)

lemma int32_0 [simp]: "int32 0 = 0"
  by (simp add: int32_def)

lemma int32_int32 [simp]: "int32 (int32 n) = int32 n"
  by (simp add: int32_def)

lemma int32_range: "(int32 n = n) = (- (2 ^ 31) \<le> n \<and> n < 2 ^ 31)"
  unfolding int32_def by (rule signed_take_bit_int_eq_self_iff)

lemma model_select_max:
  "migrations_table (live db) = Some rows \<Longrightarrow>
   Statement_step (model_engine F) (compiled select_max_sql (\<lambda>i. NullValue)) db = (r, stmt', db') \<Longrightarrow>
     db' = db \<and>
     (case r of
        Inl e \<Rightarrow> planned_error (step_fault F select_max_sql (\<lambda>i. NullValue))
      | Inr row \<Rightarrow> \<not> planned_error (step_fault F select_max_sql (\<lambda>i. NullValue)) \<and> row
          \<and> isNull stmt' 0 = (rows = [])
          \<and> (rows \<noteq> [] \<longrightarrow>
                columnInt (model_engine F) stmt' 0 = int32 (Max (set (map fst rows)))))"
  by (cases r)
     (auto simp: Statement_step_def step_handle_def final_code_def compiled_def
      model_step_select_max isNull_def columnInt_def column_def cell_def planned_error_def
      split: if_splits)

lemma model_prepare_select_max:
  "migrations_table (live db) = Some rows \<Longrightarrow>
   Statement_ctor (model_engine F) ''SELECT MAX(version) FROM __migrations'' db
     = Inr (compiled select_max_sql (\<lambda>i. NullValue))"
  by (simp add: select_max_sql_def [symmetric] model_Statement_ctor)

lemma model_currentVersion:
  assumes "currentVersion (model_engine F) db = (r, db')"
  shows "case r of
        Inr current \<Rightarrow> exec_fault F create_migrations_table = 0
                     \<and> \<not> planned_error (step_fault F select_max_sql (\<lambda>i. NullValue))
                     \<and> db' = with_table db \<and> current = int32 (max_version (records db))
      | Inl e \<Rightarrow> (exec_fault F create_migrations_table \<noteq> 0
                    \<or> planned_error (step_fault F select_max_sql (\<lambda>i. NullValue)))
                 \<and> (db' = db \<or> db' = with_table db)"
proof (cases "ensureMigrationTable (model_engine F) db")
  case (Pair r1 db1)
  note e = model_ensureMigrationTable [OF Pair]
  show ?thesis
  proof (cases r1)
    case (Inl e1)
    with e Pair assms show ?thesis
      by (auto simp: currentVersion_def)
  next
    case (Inr u)
    with e have db1: "db1 = with_table db" and f: "exec_fault F create_migrations_table = 0"
      by auto
    have t: "migrations_table (live db1) = Some (records db)"
      by (simp add: db1)
    note c = model_prepare_select_max [OF t, of F]
    obtain r2 stmt' db2 where st:
      "Statement_step (model_engine F) (compiled select_max_sql (\<lambda>i. NullValue)) db1 = (r2, stmt', db2)"
      by (cases "Statement_step (model_engine F) (compiled select_max_sql (\<lambda>i. NullValue)) db1")
    note m = model_select_max [OF t st]
    show ?thesis
      using assms Pair Inr c st m db1 f
      by (cases r2) (auto simp: currentVersion_def max_version_def split: if_splits)
  qed
qed

lemma model_currentVersion_ok:
  assumes "exec_fault F create_migrations_table = 0"
    and "\<not> planned_error (step_fault F select_max_sql (\<lambda>i. NullValue))"
  shows "currentVersion (model_engine F) db
           = (Inr (int32 (max_version (records db))), with_table db)"
proof (cases "currentVersion (model_engine F) db")
  case (Pair r db')
  from model_currentVersion [OF Pair] assms show ?thesis
    using Pair by (cases r) auto
qed

section \<open>MigrationManager on the transactional engine\<close>

lemma registered_Nil: "registered []"
  by (simp add: registered_def)

lemma registered_add:
  assumes "registered M" and "add m M = Inr M'"
  shows "registered M'"
proof -
  from assms(2) have pos: "0 < version m" and cnt: "count M (version m) = 0"
    and M': "M' = insort_key fst (version m, m) M"
    by (auto simp: add_def emplace_def split: if_splits)
  from cnt have new: "version m \<notin> set (map fst M)"
    by (auto simp: count_def filter_empty_conv)
  have s: "sorted (map fst M')"
    using assms(1) by (simp add: M' registered_def sorted_insort_key)
  have d: "distinct (map fst M')"
    using assms(1) new by (simp add: M' registered_def distinct_insort_key set_insort_key)
  have a: "\<forall>km \<in> set M'. version (snd km) = fst km \<and> 0 < fst km"
    using assms(1) pos by (auto simp: M' registered_def set_insort_key)
  from s d a show ?thesis by (simp add: registered_def)
qed

lemma at_Inr: "at M v = Inr m \<longleftrightarrow> map_of M v = Some m"
  by (auto simp: at_def split: option.splits)

lemma call_frame:
  assumes "well_behaved M" and "map_of M v = Some m"
  shows "migrations_table (live (snd (call (up m) db))) = migrations_table (live db)"
    and "journal (snd (call (up m) db)) = journal db"
    and "migrations_table (live (snd (call (down m) db))) = migrations_table (live db)"
    and "journal (snd (call (down m) db)) = journal db"
proof -
  from assms(2) have "(v, m) \<in> set M" by (rule map_of_SomeD)
  with assms(1) have u: "\<And>p. up m = Some p \<Longrightarrow> user_data_only p"
    and d: "\<And>p. down m = Some p \<Longrightarrow> user_data_only p"
    by (auto simp: well_behaved_def)
  show "migrations_table (live (snd (call (up m) db))) = migrations_table (live db)"
    using u by (cases "up m") (auto simp: call_def user_data_only_def)
  show "journal (snd (call (up m) db)) = journal db"
    using u by (cases "up m") (auto simp: call_def user_data_only_def)
  show "migrations_table (live (snd (call (down m) db))) = migrations_table (live db)"
    using d by (cases "down m") (auto simp: call_def user_data_only_def)
  show "journal (snd (call (down m) db)) = journal db"
    using d by (cases "down m") (auto simp: call_def user_data_only_def)
qed

text \<open>One successful round of the applyTo loop.\<close>

lemma applyTo_round_ok:
  assumes E: "E = model_engine F"
    and m: "at M v = Inr m"
    and b: "Transaction_ctor E Deferred db = (Inr txn, db1)"
    and t: "applyTo_try E M m v txn db1 = (Inr u, txn', db2)"
  shows "snd (Transaction_dtor E txn' db2) = apply_unit M v db \<and> journal db = None"
proof -
  from b have j: "journal db = None" and txn: "txn = \<lparr>txn_conn = True, txn_active = True\<rparr>"
    and db1: "db1 = db\<lparr>journal := Some (live db)\<rparr>"
    by (auto simp: E model_Transaction_ctor_Inr)
  obtain r1 dbu where c: "call (up m) db1 = (r1, dbu)"
    by (cases "call (up m) db1")
  from t c obtain u1 where r1: "r1 = Inr u1"
    by (cases r1) (auto simp: applyTo_try_def)
  obtain r2 dbr where rec: "recordMigration E M v dbu = (r2, dbr)"
    by (cases "recordMigration E M v dbu")
  from t c r1 rec obtain u2 where r2: "r2 = Inr u2"
    by (cases r2) (auto simp: applyTo_try_def)
  from t c r1 rec r2 have com: "Transaction_commit E txn dbr = (Inr u, txn', db2)"
    by (simp add: applyTo_try_def)
  from model_recordMigration [OF rec [unfolded E]] r2 m obtain rows where
    rows: "migrations_table (live dbu) = Some rows"
    and dbr: "dbr = dbu\<lparr>live := (live dbu)\<lparr>migrations_table := Some (rows @ [(v, description m)])\<rparr>\<rparr>"
    by auto
  from com txn have txn': "txn' = txn\<lparr>txn_active := False\<rparr>" and db2: "db2 = dbr\<lparr>journal := None\<rparr>"
    by (auto simp: E model_Transaction_commit_Inr)
  have dt: "snd (Transaction_dtor E txn' db2) = db2"
    by (simp add: E model_Transaction_dtor txn')
  from m have mo: "map_of M v = Some m" by (simp add: at_Inr)
  have "db2 = apply_unit M v db"
    using c r1 rows dbr db2 db1 mo
    by (simp add: apply_unit_def Let_def up_of_def description_of_def records_def)
  with dt j show ?thesis by simp
qed

lemma applyTo_loop_ok:
  "applyTo_loop (model_engine F) M vs db = (Inr (), db') \<Longrightarrow>
     db' = fold (apply_unit M) vs db \<and> (vs \<noteq> [] \<longrightarrow> journal db = None)"
proof (induction vs arbitrary: db)
  case Nil
  then show ?case by simp
next
  case (Cons v vs)
  let ?E = "model_engine F"
  from Cons.prems obtain m where m: "at M v = Inr m"
    by (cases "at M v") auto
  obtain r1 db1 where b0: "Transaction_ctor ?E Deferred db = (r1, db1)"
    by (cases "Transaction_ctor ?E Deferred db")
  from Cons.prems m b0 obtain txn where r1: "r1 = Inr txn"
    by (cases r1) auto
  obtain r2 txn' db2 where t0: "applyTo_try ?E M m v txn db1 = (r2, txn', db2)"
    by (cases "applyTo_try ?E M m v txn db1")
  from Cons.prems m b0 r1 t0 obtain u where r2: "r2 = Inr u"
    by (cases r2) auto
  from Cons.prems m b0 r1 t0 r2
  have rest: "applyTo_loop ?E M vs (snd (Transaction_dtor ?E txn' db2)) = (Inr (), db')"
    by simp
  note round = applyTo_round_ok [OF refl m b0 [unfolded r1] t0 [unfolded r2]]
  from Cons.IH [OF rest] round show ?case by simp
qed


lemma apply_unit_facts:
  assumes "well_behaved M" and "map_of M v = Some m"
  shows "records (apply_unit M v db) = records db @ [(v, description_of M v)]"
    and "journal (apply_unit M v db) = None"
    and "migrations_table (live (apply_unit M v db)) \<noteq> None"
  using call_frame(1) [OF assms, of "db\<lparr>journal := Some (live db)\<rparr>"] assms(2)
  by (simp_all add: apply_unit_def Let_def up_of_def records_def)

lemma fold_apply_unit_records:
  assumes "well_behaved M" and "set vs \<subseteq> set (map fst M)"
  shows "records (fold (apply_unit M) vs db) = records db @ map (\<lambda>v. (v, description_of M v)) vs"
  using assms(2)
proof (induction vs arbitrary: db)
  case Nil
  then show ?case by simp
next
  case (Cons v vs)
  from Cons.prems obtain m where m: "map_of M v = Some m"
    by (cases "map_of M v") (auto simp: map_of_eq_None_iff)
  from Cons.IH [of "apply_unit M v db"] Cons.prems apply_unit_facts(1) [OF assms(1) m, of db]
  show ?case by simp
qed

lemma fold_apply_unit_table:
  assumes "well_behaved M" and "set vs \<subseteq> set (map fst M)"
    and "migrations_table (live db) \<noteq> None"
  shows "migrations_table (live (fold (apply_unit M) vs db)) \<noteq> None"
  using assms(2,3)
proof (induction vs arbitrary: db)
  case Nil
  then show ?case by simp
next
  case (Cons v vs)
  from Cons.prems obtain m where m: "map_of M v = Some m"
    by (cases "map_of M v") (auto simp: map_of_eq_None_iff)
  from Cons.IH [of "apply_unit M v db"] Cons.prems apply_unit_facts(3) [OF assms(1) m, of db]
  show ?case by simp
qed

lemma toApply_facts:
  assumes "distinct (map fst M)"
  shows "sorted (toApply M current target)"
    and "distinct (toApply M current target)"
    and "set (toApply M current target) = {v \<in> set (map fst M). current < v \<and> v \<le> target}"
  using assms by (auto simp: toApply_def distinct_map_filter)

lemma sorted_le_last: "sorted xs \<Longrightarrow> (x::int) \<in> set xs \<Longrightarrow> x \<le> last xs"
  by (induction xs) auto

lemma latestVersion_Max:
  assumes "registered M" and "M \<noteq> []"
  shows "latestVersion M = Max (set (map fst M))" and "latestVersion M \<in> set (map fst M)"
proof -
  from assms(1) have s: "sorted (map fst M)" by (simp add: registered_def)
  have l: "latestVersion M = last (map fst M)"
    using assms(2) by (simp add: latestVersion_def last_map)
  have "\<forall>x \<in> set (map fst M). x \<le> last (map fst M)"
    using s sorted_le_last by blast
  moreover have in_set: "last (map fst M) \<in> set (map fst M)"
    using assms(2) by (metis last_in_set map_is_Nil_conv)
  ultimately have "Max (set (map fst M)) = last (map fst M)"
    by (intro Max_eqI) auto
  with l show "latestVersion M = Max (set (map fst M))" by simp
  from l in_set show "latestVersion M \<in> set (map fst M)" by simp
qed

lemma latestVersion_upper:
  assumes "registered M" and "v \<in> set (map fst M)"
  shows "v \<le> latestVersion M"
proof -
  from assms(2) have ne: "M \<noteq> []" by auto
  from latestVersion_Max(1) [OF assms(1) ne] assms(2) show ?thesis
    by simp
qed

lemma max_version_le: "r \<in> set rows \<Longrightarrow> fst r \<le> max_version rows"
  by (auto simp: max_version_def)

lemma max_version_after_apply:
  assumes reg: "registered M"
    and lo: "0 \<le> max_version rows" and hi: "max_version rows \<le> latestVersion M"
  shows "max_version (rows @ map (\<lambda>v. (v, f v)) (toApply M (max_version rows) (latestVersion M)))
           = latestVersion M"
proof -
  let ?cur = "max_version rows" and ?vs = "toApply M (max_version rows) (latestVersion M)"
  from reg have d: "distinct (map fst M)" by (simp add: registered_def)
  note ta = toApply_facts(3) [OF d, of ?cur "latestVersion M"]
  show ?thesis
  proof (cases "?vs = []")
    case True
    have "?cur = latestVersion M"
    proof (cases "M = []")
      case True
      with lo hi show ?thesis by (simp add: latestVersion_def)
    next
      case False
      from latestVersion_Max(2) [OF reg False] ta True have "\<not> ?cur < latestVersion M"
        by auto
      with hi show ?thesis by simp
    qed
    with True show ?thesis by simp
  next
    case False
    then obtain k where k: "k \<in> set ?vs" by (cases ?vs) auto
    with ta have kk: "k \<in> set (map fst M)" "?cur < k" "k \<le> latestVersion M" by auto
    then have ne: "M \<noteq> []" by auto
    from kk have lt: "?cur < latestVersion M" by simp
    from latestVersion_Max(2) [OF reg ne] lt ta have top: "latestVersion M \<in> set ?vs"
      by auto
    let ?all = "rows @ map (\<lambda>v. (v, f v)) ?vs"
    have nonempty: "?all \<noteq> []" using False by simp
    have mem: "latestVersion M \<in> set (map fst ?all)"
      using top by (auto simp: image_iff)
    have ub: "\<forall>x \<in> set (map fst ?all). x \<le> latestVersion M"
    proof
      fix x assume "x \<in> set (map fst ?all)"
      then consider r where "r \<in> set rows" "x = fst r" | "x \<in> set ?vs"
        by (auto simp: image_iff)
      then show "x \<le> latestVersion M"
      proof cases
        case 1
        with max_version_le [of r rows] hi show ?thesis by simp
      next
        case 2
        with ta show ?thesis by auto
      qed
    qed
    have "Max (set (map fst ?all)) = latestVersion M"
      using mem ub by (intro Max_eqI) auto
    with nonempty show ?thesis
      by (simp add: max_version_def)
  qed
qed

section \<open>applyTo and apply\<close>

text \<open>
  The example units form a registered set and their procedures change user data only.
\<close>

lemma create_table_user_data_only: "user_data_only (create_table name)"
  by (simp add: user_data_only_def create_table_def)

lemma drop_table_user_data_only: "user_data_only (drop_table name)"
  by (simp add: user_data_only_def drop_table_def)

lemma example_registered: "registered example_migrations"
  by (simp add: registered_def example_migrations_def unit_v1_def unit_v2_def unit_v3_def)

lemma example_int_versions: "int_versions example_migrations"
  by (simp add: int_versions_def example_migrations_def int32_range)

lemma example_well_behaved: "well_behaved example_migrations"
  by (simp add: well_behaved_def example_migrations_def unit_v1_def unit_v2_def unit_v3_def
      create_table_user_data_only drop_table_user_data_only)




lemma registered_keys:
  "registered M \<Longrightarrow> v \<in> set (map fst M) \<Longrightarrow> \<exists>m. map_of M v = Some m"
  by (cases "map_of M v") (auto simp: map_of_eq_None_iff)

lemma toApply_subset: "set (toApply M current target) \<subseteq> set (map fst M)"
  by (auto simp: toApply_def)

lemma with_table_idem:
  "migrations_table (live db) \<noteq> None \<Longrightarrow> with_table db = db"
  by (auto simp: with_table_def split: option.splits)

lemma applyTo_ok:
  assumes run: "applyTo (model_engine F) M target db = (Inr (), db')"
  shows "currentVersion (model_engine F) db
           = (Inr (int32 (max_version (records db))), with_table db)"
    and "applyTo_loop (model_engine F) M (toApply M (int32 (max_version (records db))) target)
           (with_table db)
           = (Inr (), db')"
proof -
  let ?E = "model_engine F"
  obtain r1 dba where e: "ensureMigrationTable ?E db = (r1, dba)"
    by (cases "ensureMigrationTable ?E db")
  from run e obtain u where r1: "r1 = Inr u"
    by (cases r1) (auto simp: applyTo_def)
  from model_ensureMigrationTable [OF e] r1
  have f1: "exec_fault F create_migrations_table = 0" and dba: "dba = with_table db"
    by auto
  obtain r2 dbb where c: "currentVersion ?E dba = (r2, dbb)"
    by (cases "currentVersion ?E dba")
  from run e r1 c obtain current where r2: "r2 = Inr current"
    by (cases r2) (auto simp: applyTo_def)
  from model_currentVersion [OF c] r2
  have f2: "\<not> planned_error (step_fault F select_max_sql (\<lambda>i. NullValue))"
    and dbb: "dbb = with_table dba" and cur: "current = int32 (max_version (records dba))"
    by auto
  from model_currentVersion_ok [OF f1 f2]
  show "currentVersion ?E db = (Inr (int32 (max_version (records db))), with_table db)" .
  from run e r1 c r2 dba dbb cur
  show "applyTo_loop ?E M (toApply M (int32 (max_version (records db))) target) (with_table db)
          = (Inr (), db')"
    by (simp add: applyTo_def)
qed

lemma latestVersion_int32:
  assumes reg: "registered M" and ints: "int_versions M"
  shows "int32 (latestVersion M) = latestVersion M"
proof (cases "M = []")
  case True
  then show ?thesis by (simp add: latestVersion_def)
next
  case False
  from latestVersion_Max(2) [OF reg False] obtain km where "km \<in> set M" "fst km = latestVersion M"
    by auto
  with ints show ?thesis by (auto simp: int_versions_def)
qed

lemma int32_below_latest:
  assumes "registered M" and "int_versions M" and "0 \<le> x" and "x \<le> latestVersion M"
  shows "int32 x = x"
proof -
  from latestVersion_int32 [OF assms(1,2)] have "latestVersion M < 2 ^ 31"
    by (simp add: int32_range)
  with assms(3,4) show ?thesis by (simp add: int32_range)
qed

lemma applyTo_run:
  assumes reg: "registered M" and wb: "well_behaved M"
    and cur: "currentVersion (model_engine F) db = (Inr current, db0)"
    and run: "applyTo (model_engine F) M target db = (Inr (), db')"
  shows "current = int32 (max_version (records db))" and "db0 = with_table db"
    and "db' = fold (apply_unit M) (toApply M current target) db0"
    and "records db' = records db @ map (\<lambda>v. (v, description_of M v)) (toApply M current target)"
    and "toApply M current target \<noteq> [] \<longrightarrow> \<not> in_transaction db \<and> \<not> in_transaction db'"
    and "migrations_table (live db') \<noteq> None"
proof -
  let ?E = "model_engine F"
  note ok = applyTo_ok [OF run]
  from ok(1) cur show current: "current = int32 (max_version (records db))"
    and db0: "db0 = with_table db"
    by simp_all
  let ?vs = "toApply M current target"
  from ok(2) have loop: "applyTo_loop ?E M ?vs db0 = (Inr (), db')"
    by (simp add: current db0)
  note lo = applyTo_loop_ok [OF loop]
  from lo show fold: "db' = fold (apply_unit M) ?vs db0" by simp
  show recs: "records db' = records db @ map (\<lambda>v. (v, description_of M v)) ?vs"
    using fold_apply_unit_records [OF wb toApply_subset, of current target db0]
    by (simp add: fold db0)
  show "migrations_table (live db') \<noteq> None"
    using fold_apply_unit_table [OF wb toApply_subset, of db0 current target]
    by (simp add: fold db0)
  show "?vs \<noteq> [] \<longrightarrow> \<not> in_transaction db \<and> \<not> in_transaction db'"
  proof
    assume ne: "?vs \<noteq> []"
    with lo have j0: "journal db0 = None" by simp
    then have j: "journal db = None" by (simp add: db0)
    from ne obtain xs x where sn: "?vs = xs @ [x]"
      by (cases ?vs rule: rev_cases) auto
    from toApply_subset [of M current target] sn have "x \<in> set (map fst M)" by auto
    from registered_keys [OF reg this] obtain m where m: "map_of M x = Some m" by blast
    have "journal db' = None"
      using apply_unit_facts(2) [OF wb m] by (simp add: fold sn)
    with j show "\<not> in_transaction db \<and> \<not> in_transaction db'"
      by (simp add: in_transaction_def)
  qed
qed

text \<open>
  Claim C1. On the transactional engine, for a registered migration set whose versions
  are C \<open>int\<close>s and whose procedures change user data only, and every target: when \<open>applyTo\<close> returns normally, the units
  applied are exactly the registered versions \<open>v\<close> with \<open>current < v \<le> target\<close>, in
  ascending order and each once, where \<open>current\<close> is what \<open>currentVersion\<close> gave before;
  the state reached is the one obtained by applying to each of them in turn the unit
  step of the spec (open a transaction, run the up procedure, insert the record,
  commit); the bookkeeping table holds the old records followed by one record per
  applied version, in that order; and no transaction is left open. \<open>apply\<close> is \<open>applyTo\<close>
  with target \<open>latestVersion\<close>. When the bookkeeping table is as the spec's invariant
  says (its highest version is not above the highest registered version, and no
  version in it is below 0; 0 stands for the empty table) and \<open>apply\<close> returns normally,
  then \<open>currentVersion\<close> gives \<open>latestVersion\<close> and every registered version above the
  old version has its record.
\<close>

theorem applyTo_applies_pending_in_order:
  assumes reg: "registered M" and ints: "int_versions M" and wb: "well_behaved M"
  shows "(currentVersion (model_engine F) db = (Inr current, db0)
          \<and> applyTo (model_engine F) M target db = (Inr (), db') \<longrightarrow>
            sorted (toApply M current target) \<and> distinct (toApply M current target)
          \<and> set (toApply M current target) = {v \<in> set (map fst M). current < v \<and> v \<le> target}
          \<and> db' = fold (apply_unit M) (toApply M current target) db0
          \<and> records db' = records db @ map (\<lambda>v. (v, description_of M v)) (toApply M current target)
          \<and> (toApply M current target \<noteq> [] \<longrightarrow> \<not> in_transaction db \<and> \<not> in_transaction db')
          \<and> (\<forall>v \<in> set (toApply M current target). v \<in> set (map fst (records db'))))
       \<and> MigrationManager_apply (model_engine F) M db
           = applyTo (model_engine F) M (latestVersion M) db
       \<and> (MigrationManager_apply (model_engine F) M db = (Inr (), db'')
          \<and> 0 \<le> max_version (records db) \<and> max_version (records db) \<le> latestVersion M \<longrightarrow>
            currentVersion (model_engine F) db'' = (Inr (latestVersion M), db'')
          \<and> max_version (records db'') = latestVersion M
          \<and> (\<forall>v \<in> set (map fst M).
                max_version (records db) < v \<longrightarrow> v \<in> set (map fst (records db''))))"
proof -
  let ?E = "model_engine F"
  from reg have d: "distinct (map fst M)" by (simp add: registered_def)
  have A: "currentVersion ?E db = (Inr current, db0)
          \<and> applyTo ?E M target db = (Inr (), db') \<longrightarrow>
            sorted (toApply M current target) \<and> distinct (toApply M current target)
          \<and> set (toApply M current target) = {v \<in> set (map fst M). current < v \<and> v \<le> target}
          \<and> db' = fold (apply_unit M) (toApply M current target) db0
          \<and> records db' = records db @ map (\<lambda>v. (v, description_of M v)) (toApply M current target)
          \<and> (toApply M current target \<noteq> [] \<longrightarrow> \<not> in_transaction db \<and> \<not> in_transaction db')
          \<and> (\<forall>v \<in> set (toApply M current target). v \<in> set (map fst (records db')))"
  proof
    assume a: "currentVersion ?E db = (Inr current, db0)
          \<and> applyTo ?E M target db = (Inr (), db')"
    then have cur: "currentVersion ?E db = (Inr current, db0)"
      and run: "applyTo ?E M target db = (Inr (), db')"
      by simp_all
    note ta = toApply_facts [OF d, of current target]
    note r = applyTo_run [OF reg wb cur run]
    have all: "\<forall>v \<in> set (toApply M current target). v \<in> set (map fst (records db'))"
      by (auto simp: r(4) image_iff)
    from ta r(3,4,5) all
    show "sorted (toApply M current target) \<and> distinct (toApply M current target)
          \<and> set (toApply M current target) = {v \<in> set (map fst M). current < v \<and> v \<le> target}
          \<and> db' = fold (apply_unit M) (toApply M current target) db0
          \<and> records db' = records db @ map (\<lambda>v. (v, description_of M v)) (toApply M current target)
          \<and> (toApply M current target \<noteq> [] \<longrightarrow> \<not> in_transaction db \<and> \<not> in_transaction db')
          \<and> (\<forall>v \<in> set (toApply M current target). v \<in> set (map fst (records db')))"
      by blast
  qed
  have B: "MigrationManager_apply ?E M db = applyTo ?E M (latestVersion M) db"
    by (simp add: MigrationManager_apply_def)
  have C: "MigrationManager_apply ?E M db = (Inr (), db'')
          \<and> 0 \<le> max_version (records db) \<and> max_version (records db) \<le> latestVersion M \<longrightarrow>
            currentVersion ?E db'' = (Inr (latestVersion M), db'')
          \<and> max_version (records db'') = latestVersion M
          \<and> (\<forall>v \<in> set (map fst M).
                max_version (records db) < v \<longrightarrow> v \<in> set (map fst (records db'')))"
  proof
    assume a: "MigrationManager_apply ?E M db = (Inr (), db'')
          \<and> 0 \<le> max_version (records db) \<and> max_version (records db) \<le> latestVersion M"
    then have run: "applyTo ?E M (latestVersion M) db = (Inr (), db'')"
      and lo: "0 \<le> max_version (records db)" and hi: "max_version (records db) \<le> latestVersion M"
      by (simp_all add: MigrationManager_apply_def)
    let ?old = "max_version (records db)"
    from int32_below_latest [OF reg ints lo hi] have same: "int32 ?old = ?old" .
    from applyTo_ok(1) [OF run] same
    have cur: "currentVersion ?E db = (Inr ?old, with_table db)"
      by simp
    note r = applyTo_run [OF reg wb cur run]
    note ta = toApply_facts(3) [OF d, of ?old "latestVersion M"]
    from model_currentVersion [OF cur]
    have f1: "exec_fault F create_migrations_table = 0"
      and f2: "\<not> planned_error (step_fault F select_max_sql (\<lambda>i. NullValue))"
      by auto
    have top: "max_version (records db'') = latestVersion M"
      using max_version_after_apply [OF reg lo hi, of "description_of M"]
      by (simp add: r(4))
    have after: "currentVersion ?E db'' = (Inr (latestVersion M), db'')"
      using model_currentVersion_ok [OF f1 f2, of db''] with_table_idem [OF r(6)]
        latestVersion_int32 [OF reg ints]
      by (simp add: top)
    have between: "\<forall>v \<in> set (map fst M). ?old < v \<longrightarrow> v \<in> set (map fst (records db''))"
    proof (intro ballI impI)
      fix v assume v: "v \<in> set (map fst M)" "?old < v"
      from latestVersion_upper [OF reg v(1)] v ta
      have "v \<in> set (toApply M ?old (latestVersion M))"
        by simp
      then show "v \<in> set (map fst (records db''))"
        by (auto simp: r(4) image_iff)
    qed
    from after top between
    show "currentVersion ?E db'' = (Inr (latestVersion M), db'')
          \<and> max_version (records db'') = latestVersion M
          \<and> (\<forall>v \<in> set (map fst M).
                max_version (records db) < v \<longrightarrow> v \<in> set (map fst (records db'')))"
      by blast
  qed
  from A B C show ?thesis by blast
qed

text \<open>
  The three units of the repository's \<open>migration_partial\<close> test. \<open>applyTo\<close> with target 2
  on an empty database applies units 1 and 2 in order; \<open>apply\<close> on the database that
  holds unit 1 applies units 2 and 3, and the version afterwards is the latest one.
\<close>

theorem applyTo_applies_pending_in_order_witness:
  "registered example_migrations \<and> int_versions example_migrations
   \<and> well_behaved example_migrations
   \<and> currentVersion (model_engine no_faults) (database None []) = (Inr 0, database (Some []) [])
   \<and> applyTo (model_engine no_faults) example_migrations 2 (database None [])
       = (Inr (), database (Some [(1, ''v1''), (2, ''v2'')]) [''v1'', ''v2''])
   \<and> toApply example_migrations 0 2 = [1, 2]
   \<and> database (Some [(1, ''v1''), (2, ''v2'')]) [''v1'', ''v2'']
       = fold (apply_unit example_migrations) [1, 2] (database (Some []) [])
   \<and> MigrationManager_apply (model_engine no_faults) example_migrations
        (database (Some [(1, ''v1'')]) [''v1''])
       = (Inr (), database (Some [(1, ''v1''), (2, ''v2''), (3, ''v3'')]) [''v1'', ''v2'', ''v3''])
   \<and> max_version (records (database (Some [(1, ''v1'')]) [''v1''])) = 1
   \<and> latestVersion example_migrations = 3
   \<and> currentVersion (model_engine no_faults)
        (database (Some [(1, ''v1''), (2, ''v2''), (3, ''v3'')]) [''v1'', ''v2'', ''v3''])
       = (Inr (latestVersion example_migrations),
          database (Some [(1, ''v1''), (2, ''v2''), (3, ''v3'')]) [''v1'', ''v2'', ''v3''])"
proof -
  let ?E = "model_engine no_faults :: string list connection_state engine"
  let ?d1 = "database (Some [(1, ''v1'')]) [''v1'']"
  let ?d2 = "database (Some [(1, ''v1''), (2, ''v2'')]) [''v1'', ''v2'']"
  let ?d3 = "database (Some [(1, ''v1''), (2, ''v2''), (3, ''v3'')]) [''v1'', ''v2'', ''v3'']"
  have cur: "currentVersion ?E (database None []) = (Inr 0, database (Some []) [])"
    by code_simp
  have run: "applyTo ?E example_migrations 2 (database None []) = (Inr (), ?d2)"
    by code_simp
  have vs: "toApply example_migrations 0 2 = [1, 2]"
    by code_simp
  have app: "MigrationManager_apply ?E example_migrations ?d1 = (Inr (), ?d3)"
    by code_simp
  have old: "max_version (records ?d1) = 1"
    by code_simp
  have latest: "latestVersion example_migrations = 3"
    by code_simp
  note T = applyTo_applies_pending_in_order [OF example_registered example_int_versions
      example_well_behaved,
      of no_faults _ _ _ _ _ ?d3]
  from T [of "database None []" 0 "database (Some []) []" 2 ?d2] cur run
  have "?d2 = fold (apply_unit example_migrations) (toApply example_migrations 0 2)
                (database (Some []) [])"
    by blast
  then have fold: "?d2 = fold (apply_unit example_migrations) [1, 2] (database (Some []) [])"
    by (simp only: vs)
  have bounds: "(0::int) \<le> max_version (records ?d1)
      \<and> max_version (records ?d1) \<le> latestVersion example_migrations"
    by (simp add: old latest)
  from T [of ?d1 0 ?d1 3 ?d3] app bounds
  have after: "currentVersion ?E ?d3 = (Inr (latestVersion example_migrations), ?d3)"
    by blast
  from example_registered example_int_versions example_well_behaved cur run vs fold app old
    latest after
  show ?thesis by blast
qed




section \<open>rollbackTo\<close>











end
